theory Spec2Isabelle
  imports Complex_Main
begin

section \<open>Data model (types.ts)\<close>

text \<open>
  The game keeps five collections of entities and three scalars. A JavaScript
  \<^verbatim>\<open>number\<close> that holds a coordinate, a speed, a progress, a radius, a life or a
  time stamp is a \<^typ>\<open>real\<close> here (arithmetic is exact, rounding of IEEE doubles is
  not represented); the counters \<^verbatim>\<open>score\<close>, \<^verbatim>\<open>level\<close>, \<^verbatim>\<open>ammo\<close> and
  \<^verbatim>\<open>maxAmmo\<close>, which the program only ever sets to integer literals, increments or
  decrements by an integer, are \<^typ>\<open>int\<close>.

  The interfaces of types.ts all extend \<^verbatim>\<open>Entity\<close>. \<^verbatim>\<open>Turret\<close> has every field of
  \<^verbatim>\<open>City\<close> and \<^verbatim>\<open>Interceptor\<close> every field of \<^verbatim>\<open>Rocket\<close>; the records below are
  declared as extensions along these lines, so that each field keeps the single name it
  has in the source. The field \<^verbatim>\<open>id\<close> is called \<open>ident\<close>.
\<close>

datatype GameStatus = START | PLAYING | WON | LOST | NEXT_ROUND

record Point =
  x :: real
  y :: real

record Entity = Point +
  ident :: string

record Rocket = Entity +
  targetX :: real
  targetY :: real
  speed :: real
  progress :: real

record Interceptor = Rocket +
  startX :: real
  startY :: real

record Explosion = Entity +
  radius :: real
  maxRadius :: real
  expanding :: bool
  life :: real

record City = Entity +
  active :: bool

record Turret = City +
  ammo :: int
  maxAmmo :: int

text \<open>
  The state of the component \<^verbatim>\<open>App\<close>: the React state variables \<^verbatim>\<open>gameState\<close>,
  \<^verbatim>\<open>score\<close> and \<^verbatim>\<open>level\<close>, and the mutable references \<^verbatim>\<open>rocketsRef\<close>,
  \<^verbatim>\<open>interceptorsRef\<close>, \<^verbatim>\<open>explosionsRef\<close>, \<^verbatim>\<open>citiesRef\<close>, \<^verbatim>\<open>turretsRef\<close> and
  \<^verbatim>\<open>lastSpawnTime\<close>. Every operation takes the state and returns the new one.
\<close>

record GameState =
  status :: GameStatus
  score :: int
  level :: int
  rockets :: "Rocket list"
  interceptors :: "Interceptor list"
  explosions :: "Explosion list"
  cities :: "City list"
  turrets :: "Turret list"
  lastSpawnTime :: real

section \<open>Constants (App.tsx, lines 11 to 28)\<close>

definition CANVAS_WIDTH :: real where
  "CANVAS_WIDTH = 800"

definition CANVAS_HEIGHT :: real where
  "CANVAS_HEIGHT = 600"

definition TARGET_SCORE :: int where
  "TARGET_SCORE = 1000"

definition INITIAL_TURRETS :: "Turret list" where
  "INITIAL_TURRETS =
     [\<lparr>x = 80, y = 550, ident = ''t1'', active = True, ammo = 20, maxAmmo = 20\<rparr>,
      \<lparr>x = 400, y = 550, ident = ''t2'', active = True, ammo = 40, maxAmmo = 40\<rparr>,
      \<lparr>x = 720, y = 550, ident = ''t3'', active = True, ammo = 20, maxAmmo = 20\<rparr>]"

definition INITIAL_CITIES :: "City list" where
  "INITIAL_CITIES =
     [\<lparr>x = 180, y = 570, ident = ''c1'', active = True\<rparr>,
      \<lparr>x = 260, y = 570, ident = ''c2'', active = True\<rparr>,
      \<lparr>x = 340, y = 570, ident = ''c3'', active = True\<rparr>,
      \<lparr>x = 460, y = 570, ident = ''c4'', active = True\<rparr>,
      \<lparr>x = 540, y = 570, ident = ''c5'', active = True\<rparr>,
      \<lparr>x = 620, y = 570, ident = ''c6'', active = True\<rparr>]"

text \<open>The state in which the component is mounted (lines 32 to 43).\<close>

definition initialState :: GameState where
  "initialState =
     \<lparr>status = START, score = 0, level = 1, rockets = [], interceptors = [],
      explosions = [], cities = INITIAL_CITIES, turrets = INITIAL_TURRETS,
      lastSpawnTime = 0\<rparr>"

section \<open>resetGame (lines 73 to 82)\<close>

text \<open>\<^verbatim>\<open>lastSpawnTime\<close> is not touched by \<^verbatim>\<open>resetGame\<close>.\<close>

definition resetGame :: "GameState \<Rightarrow> GameState" where
  "resetGame s =
     s\<lparr>score := 0, level := 1, status := PLAYING,
       rockets := [], interceptors := [], explosions := [],
       cities := INITIAL_CITIES, turrets := INITIAL_TURRETS\<rparr>"

section \<open>The random source\<close>

text \<open>
  \<^verbatim>\<open>Math.random()\<close> is an input of the model. One tick draws, in this order, the
  number that picks the target of a new rocket (line 88), the number that places it
  (line 89), its identifier (line 92), and one identifier for each explosion created in
  the tick (line 197): \<open>explosionIds d k\<close> is the identifier of the \<open>k\<close>-th of these,
  counted from 0. \<^verbatim>\<open>Math.random()\<close> returns a number in the interval from 0
  (included) to 1 (excluded), which is what \<open>validDraws\<close> says.
\<close>

record Draws =
  pickU :: real
  startU :: real
  rocketId :: string
  explosionIds :: "nat \<Rightarrow> string"

definition validDraws :: "Draws \<Rightarrow> bool" where
  "validDraws d \<longleftrightarrow> 0 \<le> pickU d \<and> pickU d < 1 \<and> 0 \<le> startU d \<and> startU d < 1"

section \<open>spawnRocket (lines 84 to 101)\<close>

text \<open>
  Of the chosen target only \<^verbatim>\<open>x\<close> and \<^verbatim>\<open>y\<close> are read, so the list \<^verbatim>\<open>targets\<close>
  holds the positions of the active cities followed by those of the active turrets.
  \<^verbatim>\<open>level\<close> is the value captured by the closure, passed as \<open>lvl\<close>.
\<close>

definition spawnTargets :: "GameState \<Rightarrow> (real \<times> real) list" where
  "spawnTargets s =
     map (\<lambda>c. (x c, y c)) (filter active (cities s)) @
     map (\<lambda>t. (x t, y t)) (filter active (turrets s))"

definition spawnRocket :: "int \<Rightarrow> Draws \<Rightarrow> GameState \<Rightarrow> GameState" where
  "spawnRocket lvl d s =
     (let targets = spawnTargets s
      in if length targets = 0 then s
         else
           let target = targets ! nat \<lfloor>pickU d * real (length targets)\<rfloor>;
               sx = startU d * CANVAS_WIDTH;
               newRocket = \<lparr>x = sx, y = 0, ident = rocketId d,
                            targetX = fst target, targetY = snd target,
                            speed = 0.0005 + real_of_int lvl * 0.0002, progress = 0\<rparr>
           in s\<lparr>rockets := rockets s @ [newRocket]\<rparr>)"

section \<open>handleCanvasClick (lines 103 to 153)\<close>

text \<open>
  The loop of lines 126 to 137 carries \<^verbatim>\<open>bestTurret\<close> and \<^verbatim>\<open>minDist\<close>, which are
  \<^verbatim>\<open>null\<close> and \<^verbatim>\<open>Infinity\<close> together (\<open>None\<close>) or a turret and its distance together.
  The turret is a reference into \<^verbatim>\<open>turretsRef.current\<close>: its index.
\<close>

fun findBest :: "real \<Rightarrow> Turret list \<Rightarrow> nat \<Rightarrow> (nat \<times> real) option \<Rightarrow> (nat \<times> real) option" where
  "findBest px [] i best = best"
| "findBest px (t # ts) i best =
     findBest px ts (Suc i)
       (if active t \<and> 0 < ammo t then
          (let dist = \<bar>x t - px\<bar>
           in case best of
                None \<Rightarrow> Some (i, dist)
              | Some (j, minDist) \<Rightarrow> if dist < minDist then Some (i, dist) else best)
        else best)"

definition fireInterceptor :: "real \<Rightarrow> real \<Rightarrow> string \<Rightarrow> GameState \<Rightarrow> GameState" where
  "fireInterceptor px py newId s =
     (case findBest px (turrets s) 0 None of
        None \<Rightarrow> s
      | Some (i, minDist) \<Rightarrow>
          let bestTurret = turrets s ! i
          in s\<lparr>turrets := (turrets s)[i := bestTurret\<lparr>ammo := ammo bestTurret - 1\<rparr>],
               interceptors := interceptors s @
                 [\<lparr>x = x bestTurret, y = y bestTurret, ident = newId,
                   targetX = px, targetY = py, speed = 0.02, progress = 0,
                   startX = x bestTurret, startY = y bestTurret\<rparr>]\<rparr>)"

text \<open>
  \<open>px\<close> and \<open>py\<close> are the playfield coordinates that lines 109 to 123 compute from
  the pointer event; \<open>newId\<close> is the identifier drawn at line 142. The canvas
  reference tested at line 107 is set as long as the component is mounted.
\<close>

definition handleCanvasClick :: "real \<Rightarrow> real \<Rightarrow> string \<Rightarrow> GameState \<Rightarrow> GameState" where
  "handleCanvasClick px py newId s =
     (if status s \<noteq> PLAYING then s else fireInterceptor px py newId s)"

section \<open>update (lines 155 to 248)\<close>

subsection \<open>Spawning (lines 158 to 163)\<close>

definition spawnInterval :: "int \<Rightarrow> real" where
  "spawnInterval lvl = max 500 (2000 - real_of_int lvl * 200)"

definition spawnPhase :: "real \<Rightarrow> Draws \<Rightarrow> GameState \<Rightarrow> GameState" where
  "spawnPhase time d s =
     (if time - lastSpawnTime s > spawnInterval (level s)
      then (spawnRocket (level s) d s)\<lparr>lastSpawnTime := time\<rparr>
      else s)"

subsection \<open>Rockets (lines 165 to 185)\<close>

text \<open>
  The position update divides by \<open>1 - progress + 0.001\<close>, which is 0 when the
  incremented progress is exactly 1.001: JavaScript then yields an infinite or undefined
  coordinate, the division of \<^typ>\<open>real\<close> yields 0. Such a rocket has a progress of 1 or
  more and is dropped by the same callback; its position is not read again.
\<close>

definition moveRocket :: "Rocket \<Rightarrow> Rocket" where
  "moveRocket r =
     (let r1 = r\<lparr>progress := progress r + speed r\<rparr>;
          r2 = r1\<lparr>x := x r1 + (targetX r1 - x r1) * speed r1 / (1 - progress r1 + 0.001)\<rparr>;
          r3 = r2\<lparr>y := y r2 + (targetY r2 - y r2) * speed r2 / (1 - progress r2 + 0.001)\<rparr>
      in r3)"

text \<open>\<^verbatim>\<open>find\<close> returns the first element that matches; it is the one deactivated.\<close>

definition atTarget :: "Rocket \<Rightarrow> 'a City_scheme \<Rightarrow> bool" where
  "atTarget r c \<longleftrightarrow> \<bar>x c - targetX r\<bar> < 5 \<and> \<bar>y c - targetY r\<bar> < 5"

fun deactivateFirst :: "('a City_scheme \<Rightarrow> bool) \<Rightarrow> 'a City_scheme list \<Rightarrow> 'a City_scheme list" where
  "deactivateFirst P [] = []"
| "deactivateFirst P (c # cs) =
     (if P c then c\<lparr>active := False\<rparr> # cs else c # deactivateFirst P cs)"

definition impact :: "Rocket \<Rightarrow> GameState \<Rightarrow> GameState" where
  "impact r s =
     (let s1 = s\<lparr>cities := deactivateFirst (atTarget r) (cities s)\<rparr>;
          s2 = s1\<lparr>turrets := deactivateFirst (atTarget r) (turrets s1)\<rparr>
      in if list_all (\<lambda>t. \<not> active t) (turrets s2) then s2\<lparr>status := LOST\<rparr> else s2)"

fun filterRockets :: "Rocket list \<Rightarrow> GameState \<Rightarrow> Rocket list \<times> GameState" where
  "filterRockets [] s = ([], s)"
| "filterRockets (r # rs) s =
     (let r' = moveRocket r
      in if 1 \<le> progress r' then filterRockets rs (impact r' s)
         else (case filterRockets rs s of (kept, s') \<Rightarrow> (r' # kept, s')))"

definition updateRockets :: "GameState \<Rightarrow> GameState" where
  "updateRockets s =
     (case filterRockets (rockets s) s of (kept, s') \<Rightarrow> s'\<lparr>rockets := kept\<rparr>)"

subsection \<open>Interceptors (lines 187 to 208)\<close>

definition moveInterceptor :: "Interceptor \<Rightarrow> Interceptor" where
  "moveInterceptor i =
     (let i1 = i\<lparr>progress := progress i + speed i\<rparr>;
          dx = targetX i1 - startX i1;
          dy = targetY i1 - startY i1;
          i2 = i1\<lparr>x := startX i1 + dx * progress i1\<rparr>;
          i3 = i2\<lparr>y := startY i2 + dy * progress i2\<rparr>
      in i3)"

definition newExplosion :: "string \<Rightarrow> Interceptor \<Rightarrow> Explosion" where
  "newExplosion newId i =
     \<lparr>x = targetX i, y = targetY i, ident = newId,
      radius = 0, maxRadius = 40, expanding = True, life = 1\<rparr>"

fun filterInterceptors ::
  "(nat \<Rightarrow> string) \<Rightarrow> nat \<Rightarrow> Interceptor list \<Rightarrow> Explosion list \<Rightarrow> Interceptor list \<times> Explosion list" where
  "filterInterceptors ids k [] es = ([], es)"
| "filterInterceptors ids k (i # js) es =
     (let i' = moveInterceptor i
      in if 1 \<le> progress i'
         then filterInterceptors ids (Suc k) js (es @ [newExplosion (ids k) i'])
         else (case filterInterceptors ids k js es of (kept, es') \<Rightarrow> (i' # kept, es')))"

definition updateInterceptors :: "Draws \<Rightarrow> GameState \<Rightarrow> GameState" where
  "updateInterceptors d s =
     (case filterInterceptors (explosionIds d) 0 (interceptors s) (explosions s) of
        (kept, es) \<Rightarrow> s\<lparr>interceptors := kept, explosions := es\<rparr>)"

subsection \<open>Explosions and collisions (lines 210 to 237)\<close>

definition advanceExplosion :: "Explosion \<Rightarrow> Explosion" where
  "advanceExplosion e =
     (if expanding e
      then (let e1 = e\<lparr>radius := radius e + 2\<rparr>
            in if maxRadius e1 \<le> radius e1 then e1\<lparr>expanding := False\<rparr> else e1)
      else (let e1 = e\<lparr>life := life e - 0.02\<rparr>
            in e1\<lparr>radius := radius e1 - 0.5\<rparr>))"

definition hits :: "Explosion \<Rightarrow> Rocket \<Rightarrow> bool" where
  "hits e r \<longleftrightarrow> sqrt ((x r - x e)\<^sup>2 + (y r - y e)\<^sup>2) < radius e"

text \<open>The updater passed to \<^verbatim>\<open>setScore\<close> (lines 224 to 230).\<close>

definition addScore :: "GameState \<Rightarrow> GameState" where
  "addScore s =
     (let newScore = score s + 20;
          s1 = (if TARGET_SCORE \<le> newScore then s\<lparr>status := WON\<rparr> else s)
      in s1\<lparr>score := newScore\<rparr>)"

fun collideRockets :: "Explosion \<Rightarrow> Rocket list \<Rightarrow> GameState \<Rightarrow> Rocket list \<times> GameState" where
  "collideRockets e [] s = ([], s)"
| "collideRockets e (r # rs) s =
     (if hits e r then collideRockets e rs (addScore s)
      else (case collideRockets e rs s of (kept, s') \<Rightarrow> (r # kept, s')))"

fun filterExplosions :: "Explosion list \<Rightarrow> GameState \<Rightarrow> Explosion list \<times> GameState" where
  "filterExplosions [] s = ([], s)"
| "filterExplosions (e # es) s =
     (let e' = advanceExplosion e;
          s1 = (case collideRockets e' (rockets s) s of (kept, s') \<Rightarrow> s'\<lparr>rockets := kept\<rparr>)
      in case filterExplosions es s1 of
           (keptE, s2) \<Rightarrow> (if 0 < life e' then e' # keptE else keptE, s2))"

definition updateExplosions :: "GameState \<Rightarrow> GameState" where
  "updateExplosions s =
     (case filterExplosions (explosions s) s of (kept, s') \<Rightarrow> s'\<lparr>explosions := kept\<rparr>)"

subsection \<open>Level up (lines 239 to 246)\<close>

text \<open>
  \<open>sc\<close> and \<open>lvl\<close> are the \<^verbatim>\<open>score\<close> and \<^verbatim>\<open>level\<close> captured by the closure: the
  values at the beginning of the tick.
\<close>

definition levelUp :: "int \<Rightarrow> int \<Rightarrow> GameState \<Rightarrow> GameState" where
  "levelUp sc lvl s =
     (if sc > lvl * 200 \<and> lvl < 5
      then s\<lparr>level := level s + 1,
             turrets := map (\<lambda>t. if active t then t\<lparr>ammo := maxAmmo t\<rparr> else t) (turrets s)\<rparr>
      else s)"

subsection \<open>The tick\<close>

definition update :: "real \<Rightarrow> Draws \<Rightarrow> GameState \<Rightarrow> GameState" where
  "update time d s =
     (if status s \<noteq> PLAYING then s
      else levelUp (score s) (level s)
             (updateExplosions (updateInterceptors d (updateRockets (spawnPhase time d s)))))"

text \<open>
  \<^verbatim>\<open>update\<close> reads \<^verbatim>\<open>gameState\<close>, \<^verbatim>\<open>level\<close> and \<^verbatim>\<open>score\<close> from its closure. The
  model takes them from the state the tick starts with: the component is rendered again,
  and the loop restarted with the new closure, between two animation frames.

  The state on which the explosion pass starts: after spawning, the rocket pass and the
  interceptor pass (lines 158 to 208).
\<close>

definition beforeCollisions :: "real \<Rightarrow> Draws \<Rightarrow> GameState \<Rightarrow> GameState" where
  "beforeCollisions time d s = updateInterceptors d (updateRockets (spawnPhase time d s))"

text \<open>The animation loop (lines 355 to 359): one call of \<^verbatim>\<open>update\<close> for each frame, in order.\<close>

fun run :: "(real \<times> Draws) list \<Rightarrow> GameState \<Rightarrow> GameState" where
  "run [] s = s"
| "run ((time, d) # ticks) s = run ticks (update time d s)"

section \<open>Reachable states\<close>

text \<open>
  The states of a session: the component is mounted in \<open>initialState\<close>; the start and
  restart buttons call \<^verbatim>\<open>resetGame\<close>, a click or touch on the canvas calls
  \<^verbatim>\<open>handleCanvasClick\<close>, and every animation frame calls \<^verbatim>\<open>update\<close>. The buttons
  are only shown when the status is not \<open>PLAYING\<close>; the relation allows \<^verbatim>\<open>resetGame\<close> in
  every state, so it holds of at least the states a session can be in.
\<close>

inductive reachable :: "GameState \<Rightarrow> bool" where
  reachable_init: "reachable initialState"
| reachable_reset: "reachable s \<Longrightarrow> reachable (resetGame s)"
| reachable_click: "reachable s \<Longrightarrow> reachable (handleCanvasClick px py newId s)"
| reachable_tick: "reachable s \<Longrightarrow> validDraws d \<Longrightarrow> reachable (update time d s)"

section \<open>Notions used in the statements and proofs\<close>

text \<open>The condition of line 130: the turret can fire.\<close>

definition eligible :: "Turret \<Rightarrow> bool" where
  "eligible t \<longleftrightarrow> active t \<and> 0 < ammo t"

text \<open>
  \<open>faded cs cs'\<close>: the collection \<open>cs'\<close> is \<open>cs\<close> with the same positions, where
  some members may have been deactivated and none activated.
\<close>

definition faded :: "'a City_scheme list \<Rightarrow> 'a City_scheme list \<Rightarrow> bool" where
  "faded cs cs' \<longleftrightarrow>
     list_all2 (\<lambda>c c'. x c' = x c \<and> y c' = y c \<and> (active c' \<longrightarrow> active c)) cs cs'"

text \<open>
  \<open>ammoKept ts ts'\<close>: turret by turret, \<open>ts'\<close> has the ammo and the maximal ammo of
  \<open>ts\<close>; \<open>ammoRefilled ts ts'\<close>: turret by turret, \<open>ts'\<close> has the maximal ammo of \<open>ts\<close>
  and either the ammo of \<open>ts\<close> or the maximal ammo.
\<close>

definition ammoKept :: "Turret list \<Rightarrow> Turret list \<Rightarrow> bool" where
  "ammoKept ts ts' \<longleftrightarrow>
     list_all2 (\<lambda>t t'. maxAmmo t' = maxAmmo t \<and> ammo t' = ammo t) ts ts'"

definition ammoRefilled :: "Turret list \<Rightarrow> Turret list \<Rightarrow> bool" where
  "ammoRefilled ts ts' \<longleftrightarrow>
     list_all2 (\<lambda>t t'. maxAmmo t' = maxAmmo t \<and> (ammo t' = ammo t \<or> ammo t' = maxAmmo t)) ts ts'"

text \<open>
  The explosions the program can hold: created by line 196 with radius 0, maximal radius
  40 and life 1, then advanced once a tick. While expanding, the radius is \<open>2 * k\<close> with
  \<open>k < 20\<close>; after the flip, \<open>j\<close> contraction steps leave the radius \<open>40 - j / 2\<close>
  and the life \<open>1 - j / 50\<close>, and the explosion is still in the store only if \<open>j < 50\<close>.
\<close>

definition explosionInv :: "Explosion \<Rightarrow> bool" where
  "explosionInv e \<longleftrightarrow>
     maxRadius e = 40 \<and>
     (if expanding e
      then life e = 1 \<and> (\<exists>k<20. radius e = 2 * real k)
      else \<exists>j<50. radius e = 40 - real j / 2 \<and> life e = 1 - real j / 50)"

section \<open>Concrete draws and states\<close>

definition exampleDraws :: Draws where
  "exampleDraws =
     \<lparr>pickU = 0.5, startU = 0.25, rocketId = ''r9'', explosionIds = (\<lambda>k. ''e9'')\<rparr>"

text \<open>A lost game: every city and turret has been hit.\<close>

definition exampleLost :: GameState where
  "exampleLost =
     \<lparr>status = LOST, score = 340, level = 2,
      rockets = [\<lparr>x = 10, y = 20, ident = ''r1'', targetX = 180, targetY = 570,
                  speed = 0.0009, progress = 0.25\<rparr>],
      interceptors = [],
      explosions = [\<lparr>x = 100, y = 100, ident = ''e1'', radius = 12, maxRadius = 40,
                     expanding = True, life = 1\<rparr>],
      cities = map (\<lambda>c. c\<lparr>active := False\<rparr>) INITIAL_CITIES,
      turrets = map (\<lambda>t. t\<lparr>active := False, ammo := 3\<rparr>) INITIAL_TURRETS,
      lastSpawnTime = 5000\<rparr>"

text \<open>A game that has just been started.\<close>

definition examplePlaying :: GameState where
  "examplePlaying =
     \<lparr>status = PLAYING, score = 0, level = 1,
      rockets = [],
      interceptors = [],
      explosions = [],
      cities = INITIAL_CITIES,
      turrets = INITIAL_TURRETS,
      lastSpawnTime = 0\<rparr>"

text \<open>Two rockets, one of them inside a growing explosion.\<close>

definition exampleBlast :: GameState where
  "exampleBlast =
     \<lparr>status = PLAYING, score = 340, level = 2,
      rockets = [\<lparr>x = 100, y = 100, ident = ''r1'', targetX = 180, targetY = 570,
                  speed = 0.0009, progress = 0.25\<rparr>,
                 \<lparr>x = 500, y = 100, ident = ''r2'', targetX = 400, targetY = 550,
                  speed = 0.0009, progress = 0.25\<rparr>],
      interceptors = [],
      explosions = [\<lparr>x = 100, y = 100, ident = ''e1'', radius = 12, maxRadius = 40,
                     expanding = True, life = 1\<rparr>],
      cities = INITIAL_CITIES,
      turrets = INITIAL_TURRETS,
      lastSpawnTime = 5000\<rparr>"

text \<open>Two interceptors: one a frame short of its target, one just fired.\<close>

definition exampleVolley :: GameState where
  "exampleVolley =
     \<lparr>status = PLAYING, score = 340, level = 2,
      rockets = [\<lparr>x = 500, y = 100, ident = ''r2'', targetX = 400, targetY = 550,
                  speed = 0.0009, progress = 0.25\<rparr>],
      interceptors =
        [\<lparr>x = 301, y = 302.5, ident = ''i1'', targetX = 300, targetY = 300,
          speed = 0.02, progress = 0.99, startX = 400, startY = 550\<rparr>,
         \<lparr>x = 80, y = 550, ident = ''i2'', targetX = 200, targetY = 150,
          speed = 0.02, progress = 0, startX = 80, startY = 550\<rparr>],
      explosions = [\<lparr>x = 100, y = 100, ident = ''e1'', radius = 12, maxRadius = 40,
                     expanding = True, life = 1\<rparr>],
      cities = INITIAL_CITIES,
      turrets = INITIAL_TURRETS,
      lastSpawnTime = 5000\<rparr>"

text \<open>A rocket about to reach the city at \<open>(180, 570)\<close>.\<close>

definition exampleImpact :: GameState where
  "exampleImpact =
     \<lparr>status = PLAYING, score = 340, level = 2,
      rockets = [\<lparr>x = 179.9, y = 569.9, ident = ''r1'', targetX = 180, targetY = 570,
                  speed = 0.0009, progress = 0.9995\<rparr>,
                 \<lparr>x = 500, y = 100, ident = ''r2'', targetX = 400, targetY = 550,
                  speed = 0.0009, progress = 0.25\<rparr>],
      interceptors = [],
      explosions = [],
      cities = INITIAL_CITIES,
      turrets = INITIAL_TURRETS,
      lastSpawnTime = 5000\<rparr>"

text \<open>
  One turret left, with a rocket about to reach it, and a second rocket inside an
  explosion; the score is one kill short of the target.
\<close>

definition exampleLastStand :: GameState where
  "exampleLastStand =
     \<lparr>status = PLAYING, score = 980, level = 5,
      rockets = [\<lparr>x = 719.9, y = 549.9, ident = ''r1'', targetX = 720, targetY = 550,
                  speed = 0.0015, progress = 0.999\<rparr>,
                 \<lparr>x = 300, y = 200, ident = ''r2'', targetX = 180, targetY = 570,
                  speed = 0.0015, progress = 0.4\<rparr>],
      interceptors = [],
      explosions = [\<lparr>x = 300, y = 200, ident = ''e1'', radius = 20, maxRadius = 40,
                     expanding = True, life = 1\<rparr>],
      cities = INITIAL_CITIES,
      turrets =
        [\<lparr>x = 80, y = 550, ident = ''t1'', active = False, ammo = 0, maxAmmo = 20\<rparr>,
         \<lparr>x = 400, y = 550, ident = ''t2'', active = False, ammo = 12, maxAmmo = 40\<rparr>,
         \<lparr>x = 720, y = 550, ident = ''t3'', active = True, ammo = 5, maxAmmo = 20\<rparr>],
      lastSpawnTime = 5000\<rparr>"

text \<open>The same position earlier in a game: the score is far from the target.\<close>

definition exampleFall :: GameState where
  "exampleFall =
     \<lparr>status = PLAYING, score = 340, level = 2,
      rockets = [\<lparr>x = 719.9, y = 549.9, ident = ''r1'', targetX = 720, targetY = 550,
                  speed = 0.0009, progress = 0.9995\<rparr>,
                 \<lparr>x = 300, y = 200, ident = ''r2'', targetX = 180, targetY = 570,
                  speed = 0.0009, progress = 0.4\<rparr>],
      interceptors = [],
      explosions = [\<lparr>x = 300, y = 200, ident = ''e1'', radius = 20, maxRadius = 40,
                     expanding = True, life = 1\<rparr>],
      cities = INITIAL_CITIES,
      turrets =
        [\<lparr>x = 80, y = 550, ident = ''t1'', active = False, ammo = 0, maxAmmo = 20\<rparr>,
         \<lparr>x = 400, y = 550, ident = ''t2'', active = False, ammo = 12, maxAmmo = 40\<rparr>,
         \<lparr>x = 720, y = 550, ident = ''t3'', active = True, ammo = 5, maxAmmo = 20\<rparr>],
      lastSpawnTime = 5000\<rparr>"


text \<open>
  A session: start, one click at \<open>(240, 300)\<close>, then 49 frames. The interceptor fired
  by the click is one frame short of its target.
\<close>

definition exampleFlight :: GameState where
  "exampleFlight =
     run (replicate 49 (100, exampleDraws))
       (handleCanvasClick 240 300 ''i1'' (resetGame initialState))"

section \<open>Restart\<close>

text \<open>
  Claim C9. From any state, \<open>resetGame\<close> sets the score to 0, the level to 1 and the
  status to \<open>PLAYING\<close>, empties the rockets, the interceptors and the explosions, and
  restores the cities and the turrets to the initial tables: every city and turret is
  active, at its initial position, and every turret has its maximum ammo.
\<close>

theorem resetGame_restores:
  "score (resetGame s) = 0 \<and> level (resetGame s) = 1 \<and> status (resetGame s) = PLAYING \<and>
   rockets (resetGame s) = [] \<and> interceptors (resetGame s) = [] \<and>
   explosions (resetGame s) = [] \<and>
   cities (resetGame s) = INITIAL_CITIES \<and> turrets (resetGame s) = INITIAL_TURRETS \<and>
   (\<forall>c \<in> set (cities (resetGame s)). active c) \<and>
   (\<forall>t \<in> set (turrets (resetGame s)). active t \<and> ammo t = maxAmmo t) \<and>
   map (\<lambda>c. (x c, y c)) (cities (resetGame s)) =
     [(180, 570), (260, 570), (340, 570), (460, 570), (540, 570), (620, 570)] \<and>
   map (\<lambda>t. (x t, y t, ammo t)) (turrets (resetGame s)) =
     [(80, 550, 20), (400, 550, 40), (720, 550, 20)]"
  by (simp add: resetGame_def INITIAL_CITIES_def INITIAL_TURRETS_def)

theorem resetGame_restores_witness:
  "list_all (\<lambda>t. \<not> active t \<and> ammo t = 3) (turrets exampleLost) \<and>
   rockets exampleLost \<noteq> [] \<and> status exampleLost = LOST \<and>
   score (resetGame exampleLost) = 0 \<and> level (resetGame exampleLost) = 1 \<and>
   status (resetGame exampleLost) = PLAYING \<and> rockets (resetGame exampleLost) = [] \<and>
   explosions (resetGame exampleLost) = [] \<and>
   map active (cities (resetGame exampleLost)) = [True, True, True, True, True, True] \<and>
   map ammo (turrets (resetGame exampleLost)) = [20, 40, 20]"
  using resetGame_restores [of exampleLost]
  by (simp add: exampleLost_def INITIAL_CITIES_def INITIAL_TURRETS_def)

section \<open>Targeting\<close>

lemma findBest_step:
  "findBest px (t # ts) i best =
     findBest px ts (Suc i)
       (if eligible t then
          (case best of None \<Rightarrow> Some (i, \<bar>x t - px\<bar>)
           | Some (j, m) \<Rightarrow> if \<bar>x t - px\<bar> < m then Some (i, \<bar>x t - px\<bar>) else best)
        else best)"
  by (simp add: eligible_def Let_def)

lemma findBest_char:
  "(case findBest px ts i best of
      None \<Rightarrow> best = None \<and> (\<forall>j<length ts. \<not> eligible (ts ! j))
    | Some (n, m) \<Rightarrow>
        (Some (n, m) = best \<and> (\<forall>j<length ts. eligible (ts ! j) \<longrightarrow> m \<le> \<bar>x (ts ! j) - px\<bar>)) \<or>
        (\<exists>k<length ts. n = i + k \<and> m = \<bar>x (ts ! k) - px\<bar> \<and> eligible (ts ! k) \<and>
           (\<forall>j<length ts. eligible (ts ! j) \<longrightarrow> m \<le> \<bar>x (ts ! j) - px\<bar>) \<and>
           (\<forall>j<k. eligible (ts ! j) \<longrightarrow> m < \<bar>x (ts ! j) - px\<bar>) \<and>
           (case best of None \<Rightarrow> True | Some (n0, m0) \<Rightarrow> m < m0)))"
proof (induction ts arbitrary: i best)
  case Nil
  then show ?case by (auto split: option.splits)
next
  case (Cons t ts)
  let ?d = "\<bar>x t - px\<bar>"
  let ?b = "if eligible t then
          (case best of None \<Rightarrow> Some (i, ?d)
           | Some (j, m) \<Rightarrow> if ?d < m then Some (i, ?d) else best)
        else best"
  have step: "findBest px (t # ts) i best = findBest px ts (Suc i) ?b"
    by (rule findBest_step)
  note IH = Cons.IH [where i = "Suc i" and best = ?b]
  show ?case
  proof (cases "findBest px ts (Suc i) ?b")
    case None
    with IH have b: "?b = None" and ne: "\<forall>j<length ts. \<not> eligible (ts ! j)" by auto
    from b have "best = None" "\<not> eligible t" by (auto split: if_splits option.splits)
    with ne None step show ?thesis
      by (auto simp: nth_Cons' simp del: findBest.simps)
  next
    case (Some r)
    obtain n m where r: "r = (n, m)" by (cases r)
    from IH Some r consider
      (keep) "Some (n, m) = ?b" "\<forall>j<length ts. eligible (ts ! j) \<longrightarrow> m \<le> \<bar>x (ts ! j) - px\<bar>"
      | (new) k where "k < length ts" "n = Suc i + k" "m = \<bar>x (ts ! k) - px\<bar>" "eligible (ts ! k)"
          "\<forall>j<length ts. eligible (ts ! j) \<longrightarrow> m \<le> \<bar>x (ts ! j) - px\<bar>"
          "\<forall>j<k. eligible (ts ! j) \<longrightarrow> m < \<bar>x (ts ! j) - px\<bar>"
          "case ?b of None \<Rightarrow> True | Some (n0, m0) \<Rightarrow> m < m0"
      by auto
    then show ?thesis
    proof cases
      case keep
      show ?thesis
      proof (cases "Some (n, m) = best")
        case True
        with keep have "eligible t \<longrightarrow> m \<le> ?d"
          by (auto split: if_splits option.splits)
        with keep True Some r step show ?thesis
          by (auto simp: nth_Cons' simp del: findBest.simps)
      next
        case False
        with keep have e: "eligible t" and nm: "n = i" "m = ?d"
          and b: "case best of None \<Rightarrow> True | Some (n0, m0) \<Rightarrow> m < m0"
          by (auto split: if_splits option.splits)
        have "\<exists>k<length (t # ts). n = i + k \<and> m = \<bar>x ((t # ts) ! k) - px\<bar> \<and> eligible ((t # ts) ! k) \<and>
           (\<forall>j<length (t # ts). eligible ((t # ts) ! j) \<longrightarrow> m \<le> \<bar>x ((t # ts) ! j) - px\<bar>) \<and>
           (\<forall>j<k. eligible ((t # ts) ! j) \<longrightarrow> m < \<bar>x ((t # ts) ! j) - px\<bar>) \<and>
           (case best of None \<Rightarrow> True | Some (n0, m0) \<Rightarrow> m < m0)"
          using e nm b keep(2) by (intro exI [of _ 0]) (auto simp: nth_Cons')
        with Some r step show ?thesis by (simp del: findBest.simps)
      qed
    next
      case new
      from new(7) have tm: "eligible t \<longrightarrow> m < ?d"
        and b: "case best of None \<Rightarrow> True | Some (n0, m0) \<Rightarrow> m < m0"
        by (auto split: if_splits option.splits)
      have "\<exists>k<length (t # ts). n = i + k \<and> m = \<bar>x ((t # ts) ! k) - px\<bar> \<and> eligible ((t # ts) ! k) \<and>
           (\<forall>j<length (t # ts). eligible ((t # ts) ! j) \<longrightarrow> m \<le> \<bar>x ((t # ts) ! j) - px\<bar>) \<and>
           (\<forall>j<k. eligible ((t # ts) ! j) \<longrightarrow> m < \<bar>x ((t # ts) ! j) - px\<bar>) \<and>
           (case best of None \<Rightarrow> True | Some (n0, m0) \<Rightarrow> m < m0)"
        using new(1-6) tm b
        by (intro exI [of _ "Suc k"]) (auto simp: nth_Cons' less_Suc_eq_0_disj)
      with Some r step show ?thesis by (simp del: findBest.simps)
    qed
  qed
qed


lemma findBest_bound:
  "findBest px ts 0 None = Some (n, m) \<Longrightarrow> n < length ts"
  using findBest_char [where px = px and ts = ts and i = 0 and best = None] by auto

lemma fireInterceptor_turrets:
  "turrets (fireInterceptor px py newId s) = turrets s \<or>
   (\<exists>k < length (turrets s). 0 < ammo (turrets s ! k) \<and>
      turrets (fireInterceptor px py newId s) =
        (turrets s)[k := (turrets s ! k)\<lparr>ammo := ammo (turrets s ! k) - 1\<rparr>])"
proof (cases "findBest px (turrets s) 0 None")
  case None
  then show ?thesis by (simp add: fireInterceptor_def)
next
  case (Some r)
  obtain n m where r: "r = (n, m)" by (cases r)
  from findBest_char [where px = px and ts = "turrets s" and i = 0 and best = None] Some r
  have "n < length (turrets s)" "eligible (turrets s ! n)" by auto
  moreover have "turrets (fireInterceptor px py newId s) =
        (turrets s)[n := (turrets s ! n)\<lparr>ammo := ammo (turrets s ! n) - 1\<rparr>]"
    using Some r by (simp add: fireInterceptor_def Let_def)
  ultimately show ?thesis by (auto simp: eligible_def)
qed

lemma handleCanvasClick_turrets:
  "turrets (handleCanvasClick px py newId s) = turrets s \<or>
   (\<exists>k < length (turrets s). 0 < ammo (turrets s ! k) \<and>
      turrets (handleCanvasClick px py newId s) =
        (turrets s)[k := (turrets s ! k)\<lparr>ammo := ammo (turrets s ! k) - 1\<rparr>])"
  using fireInterceptor_turrets [of px py newId s] by (simp add: handleCanvasClick_def)

text \<open>
  Claim C5. For every point \<open>(px, py)\<close> and every turret collection, the resolver
  (lines 126 to 152, \<open>fireInterceptor\<close>) selects, among the turrets that are active and
  have ammo above 0, one whose horizontal distance to \<open>px\<close> is minimal, and among those
  the first in collection order. If there is no such turret, nothing changes. Otherwise
  the ammo of exactly that turret goes down by one and exactly one interceptor is appended,
  from the turret's position to the point, with speed 0.02 whatever the level.
  \<open>handleCanvasClick\<close> runs the resolver when the status is \<open>PLAYING\<close>.
\<close>

theorem fireInterceptor_nearest:
  "(if \<exists>t \<in> set (turrets s). eligible t
    then \<exists>k<length (turrets s).
           eligible (turrets s ! k) \<and>
           (\<forall>j<length (turrets s). eligible (turrets s ! j) \<longrightarrow>
              \<bar>x (turrets s ! k) - px\<bar> \<le> \<bar>x (turrets s ! j) - px\<bar>) \<and>
           (\<forall>j<k. eligible (turrets s ! j) \<longrightarrow>
              \<bar>x (turrets s ! k) - px\<bar> < \<bar>x (turrets s ! j) - px\<bar>) \<and>
           fireInterceptor px py newId s =
             s\<lparr>turrets := (turrets s)[k := (turrets s ! k)\<lparr>ammo := ammo (turrets s ! k) - 1\<rparr>],
               interceptors := interceptors s @
                 [\<lparr>x = x (turrets s ! k), y = y (turrets s ! k), ident = newId,
                   targetX = px, targetY = py, speed = 0.02, progress = 0,
                   startX = x (turrets s ! k), startY = y (turrets s ! k)\<rparr>]\<rparr>
    else fireInterceptor px py newId s = s) \<and>
   handleCanvasClick px py newId s =
     (if status s = PLAYING then fireInterceptor px py newId s else s)"
proof -
  let ?ts = "turrets s"
  note ch = findBest_char [where px = px and ts = ?ts and i = 0 and best = None]
  have main: "if \<exists>t \<in> set ?ts. eligible t
    then \<exists>k<length ?ts.
           eligible (?ts ! k) \<and>
           (\<forall>j<length ?ts. eligible (?ts ! j) \<longrightarrow> \<bar>x (?ts ! k) - px\<bar> \<le> \<bar>x (?ts ! j) - px\<bar>) \<and>
           (\<forall>j<k. eligible (?ts ! j) \<longrightarrow> \<bar>x (?ts ! k) - px\<bar> < \<bar>x (?ts ! j) - px\<bar>) \<and>
           fireInterceptor px py newId s =
             s\<lparr>turrets := ?ts[k := (?ts ! k)\<lparr>ammo := ammo (?ts ! k) - 1\<rparr>],
               interceptors := interceptors s @
                 [\<lparr>x = x (?ts ! k), y = y (?ts ! k), ident = newId,
                   targetX = px, targetY = py, speed = 0.02, progress = 0,
                   startX = x (?ts ! k), startY = y (?ts ! k)\<rparr>]\<rparr>
    else fireInterceptor px py newId s = s"
  proof (cases "findBest px ?ts 0 None")
    case None
    with ch have "\<forall>j<length ?ts. \<not> eligible (?ts ! j)" by simp
    then have "\<not> (\<exists>t \<in> set ?ts. eligible t)" by (auto simp: in_set_conv_nth)
    with None show ?thesis by (simp add: fireInterceptor_def)
  next
    case (Some r)
    obtain n m where r: "r = (n, m)" by (cases r)
    from ch Some r have k: "n < length ?ts" "eligible (?ts ! n)"
      "\<forall>j<length ?ts. eligible (?ts ! j) \<longrightarrow> \<bar>x (?ts ! n) - px\<bar> \<le> \<bar>x (?ts ! j) - px\<bar>"
      "\<forall>j<n. eligible (?ts ! j) \<longrightarrow> \<bar>x (?ts ! n) - px\<bar> < \<bar>x (?ts ! j) - px\<bar>"
      by auto
    from k(1,2) have ex: "\<exists>t \<in> set ?ts. eligible t" using nth_mem by blast
    have "fireInterceptor px py newId s =
             s\<lparr>turrets := ?ts[n := (?ts ! n)\<lparr>ammo := ammo (?ts ! n) - 1\<rparr>],
               interceptors := interceptors s @
                 [\<lparr>x = x (?ts ! n), y = y (?ts ! n), ident = newId,
                   targetX = px, targetY = py, speed = 0.02, progress = 0,
                   startX = x (?ts ! n), startY = y (?ts ! n)\<rparr>]\<rparr>"
      using Some r by (simp add: fireInterceptor_def Let_def)
    with k ex show ?thesis by auto
  qed
  show ?thesis using main by (simp add: handleCanvasClick_def)
qed

theorem fireInterceptor_nearest_witness:
  "eligible (turrets examplePlaying ! 0) \<and> eligible (turrets examplePlaying ! 1) \<and>
   \<bar>x (turrets examplePlaying ! 0) - 240\<bar> = \<bar>x (turrets examplePlaying ! 1) - 240\<bar> \<and>
   map ammo (turrets (fireInterceptor 240 300 ''i1'' examplePlaying)) = [19, 40, 20] \<and>
   interceptors (fireInterceptor 240 300 ''i1'' examplePlaying) =
     [\<lparr>x = 80, y = 550, ident = ''i1'', targetX = 240, targetY = 300, speed = 0.02,
       progress = 0, startX = 80, startY = 550\<rparr>]"
  using fireInterceptor_nearest [of examplePlaying 240 300 "''i1''"]
  by (simp add: examplePlaying_def INITIAL_TURRETS_def eligible_def fireInterceptor_def)

section \<open>What each pass of the tick computes\<close>

subsection \<open>Fields an operation leaves alone\<close>

lemma addScore_fields [simp]:
  "score (addScore s) = score s + 20"
  "level (addScore s) = level s"
  "rockets (addScore s) = rockets s"
  "interceptors (addScore s) = interceptors s"
  "explosions (addScore s) = explosions s"
  "cities (addScore s) = cities s"
  "turrets (addScore s) = turrets s"
  "lastSpawnTime (addScore s) = lastSpawnTime s"
  "status (addScore s) = (if 1000 \<le> score s + 20 then WON else status s)"
  by (simp_all add: addScore_def Let_def TARGET_SCORE_def)

lemma impact_fields [simp]:
  "score (impact r s) = score s"
  "level (impact r s) = level s"
  "rockets (impact r s) = rockets s"
  "interceptors (impact r s) = interceptors s"
  "explosions (impact r s) = explosions s"
  "lastSpawnTime (impact r s) = lastSpawnTime s"
  "cities (impact r s) = deactivateFirst (atTarget r) (cities s)"
  "turrets (impact r s) = deactivateFirst (atTarget r) (turrets s)"
  "status (impact r s) =
     (if list_all (\<lambda>t. \<not> active t) (deactivateFirst (atTarget r) (turrets s))
      then LOST else status s)"
  by (simp_all add: impact_def Let_def)

subsection \<open>The rocket pass\<close>

lemma filterRockets_eq:
  "filterRockets rs s =
     (filter (\<lambda>r. \<not> 1 \<le> progress r) (map moveRocket rs),
      fold impact (filter (\<lambda>r. 1 \<le> progress r) (map moveRocket rs)) s)"
  by (induction rs arbitrary: s) (simp_all add: Let_def)

lemma fold_impact_fields [simp]:
  "score (fold impact rs s) = score s"
  "level (fold impact rs s) = level s"
  "rockets (fold impact rs s) = rockets s"
  "interceptors (fold impact rs s) = interceptors s"
  "explosions (fold impact rs s) = explosions s"
  "lastSpawnTime (fold impact rs s) = lastSpawnTime s"
  by (induction rs arbitrary: s; simp)+

lemma updateRockets_eq:
  "updateRockets s =
     (fold impact (filter (\<lambda>r. 1 \<le> progress r) (map moveRocket (rockets s))) s)
       \<lparr>rockets := filter (\<lambda>r. \<not> 1 \<le> progress r) (map moveRocket (rockets s))\<rparr>"
  by (simp add: updateRockets_def filterRockets_eq)

subsection \<open>The interceptor pass\<close>

lemma filterInterceptors_eq:
  "filterInterceptors ids k js es =
     (filter (\<lambda>i. \<not> 1 \<le> progress i) (map moveInterceptor js),
      es @ map (\<lambda>(n, i). newExplosion (ids n) i)
             (enumerate k (filter (\<lambda>i. 1 \<le> progress i) (map moveInterceptor js))))"
  by (induction js arbitrary: k es) (simp_all add: Let_def)

lemma updateInterceptors_eq:
  "updateInterceptors d s =
     s\<lparr>interceptors := filter (\<lambda>i. \<not> 1 \<le> progress i) (map moveInterceptor (interceptors s)),
       explosions := explosions s @ map (\<lambda>(n, i). newExplosion (explosionIds d n) i)
            (enumerate 0 (filter (\<lambda>i. 1 \<le> progress i) (map moveInterceptor (interceptors s))))\<rparr>"
  by (simp add: updateInterceptors_def filterInterceptors_eq)

subsection \<open>The explosion pass\<close>

lemma collideRockets_eq:
  "collideRockets e rs s =
     (filter (\<lambda>r. \<not> hits e r) rs, (addScore ^^ length (filter (hits e) rs)) s)"
  by (induction rs arbitrary: s) (simp_all add: funpow_swap1)

lemma addScore_pow_fields [simp]:
  "level ((addScore ^^ n) s) = level s"
  "rockets ((addScore ^^ n) s) = rockets s"
  "interceptors ((addScore ^^ n) s) = interceptors s"
  "explosions ((addScore ^^ n) s) = explosions s"
  "cities ((addScore ^^ n) s) = cities s"
  "turrets ((addScore ^^ n) s) = turrets s"
  "lastSpawnTime ((addScore ^^ n) s) = lastSpawnTime s"
  "score ((addScore ^^ n) s) = score s + 20 * int n"
  by (induction n; simp)+

lemma addScore_pow_status:
  "status ((addScore ^^ n) s) =
     (if 0 < n \<and> 1000 \<le> score s + 20 * int n then WON else status s)"
  by (induction n) auto


lemma length_filter_split:
  "length (filter P xs) + length (filter Q (filter (\<lambda>r. \<not> P r) xs)) =
   length (filter (\<lambda>r. P r \<or> Q r) xs)"
  by (induction xs) auto

lemma filterExplosions_fst:
  "fst (filterExplosions es s) = filter (\<lambda>e. 0 < life e) (map advanceExplosion es)"
  by (induction es arbitrary: s) (simp_all add: Let_def case_prod_beta)

lemma filterExplosions_fields [simp]:
  "level (snd (filterExplosions es s)) = level s"
  "interceptors (snd (filterExplosions es s)) = interceptors s"
  "explosions (snd (filterExplosions es s)) = explosions s"
  "cities (snd (filterExplosions es s)) = cities s"
  "turrets (snd (filterExplosions es s)) = turrets s"
  "lastSpawnTime (snd (filterExplosions es s)) = lastSpawnTime s"
  by (induction es arbitrary: s; simp add: Let_def case_prod_beta collideRockets_eq)+

lemma filterExplosions_rockets:
  "rockets (snd (filterExplosions es s)) =
     filter (\<lambda>r. \<not> (\<exists>e \<in> set es. hits (advanceExplosion e) r)) (rockets s)"
proof (induction es arbitrary: s)
  case Nil
  show ?case by simp
next
  case (Cons e es)
  show ?case
    by (simp add: Let_def case_prod_beta collideRockets_eq Cons.IH)
qed

lemma filterExplosions_score:
  "score (snd (filterExplosions es s)) =
     score s + 20 * int (length (filter (\<lambda>r. \<exists>e \<in> set es. hits (advanceExplosion e) r) (rockets s)))"
proof (induction es arbitrary: s)
  case Nil
  show ?case by simp
next
  case (Cons e es)
  have "length (filter (hits (advanceExplosion e)) (rockets s)) +
        length (filter (\<lambda>r. \<exists>e \<in> set es. hits (advanceExplosion e) r)
                  (filter (\<lambda>r. \<not> hits (advanceExplosion e) r) (rockets s))) =
        length (filter (\<lambda>r. hits (advanceExplosion e) r \<or> (\<exists>e \<in> set es. hits (advanceExplosion e) r)) (rockets s))"
    by (rule length_filter_split)
  then show ?case
    by (simp add: Let_def case_prod_beta collideRockets_eq Cons.IH)
qed

lemma status_chain:
  fixes a b c :: int and n :: nat
  assumes "st2 = (if 1000 \<le> c \<and> b < c then WON else st1)"
    and "st1 = (if 0 < n \<and> 1000 \<le> a + 20 * int n then WON else st0)"
    and "b = a + 20 * int n" and "b \<le> c"
  shows "st2 = (if 1000 \<le> c \<and> a < c then WON else st0)"
  using assms by (cases "n = 0") auto

lemma filterExplosions_status:
  "status (snd (filterExplosions es s)) =
     (if 1000 \<le> score (snd (filterExplosions es s)) \<and> score s < score (snd (filterExplosions es s))
      then WON else status s)"
proof (induction es arbitrary: s)
  case Nil
  show ?case by simp
next
  case (Cons e es)
  let ?e = "advanceExplosion e"
  let ?n = "length (filter (hits ?e) (rockets s))"
  let ?s1 = "((addScore ^^ ?n) s)\<lparr>rockets := filter (\<lambda>r. \<not> hits ?e r) (rockets s)\<rparr>"
  have unfold: "snd (filterExplosions (e # es) s) = snd (filterExplosions es ?s1)"
    by (simp add: Let_def case_prod_beta collideRockets_eq)
  have s1: "score ?s1 = score s + 20 * int ?n"
    "status ?s1 = (if 0 < ?n \<and> 1000 \<le> score s + 20 * int ?n then WON else status s)"
    by (simp_all add: addScore_pow_status)
  have mono: "score ?s1 \<le> score (snd (filterExplosions es ?s1))"
    by (simp add: filterExplosions_score)
  show ?case
    unfolding unfold by (rule status_chain [OF Cons.IH [of ?s1] s1(2) s1(1) mono])
qed

lemma updateExplosions_eq:
  "updateExplosions s =
     (snd (filterExplosions (explosions s) s))
       \<lparr>explosions := filter (\<lambda>e. 0 < life e) (map advanceExplosion (explosions s))\<rparr>"
  using filterExplosions_fst [of "explosions s" s]
  by (simp add: updateExplosions_def case_prod_beta)

subsection \<open>Fields a pass leaves alone\<close>

lemma spawnRocket_fields [simp]:
  "status (spawnRocket lvl d s) = status s"
  "score (spawnRocket lvl d s) = score s"
  "level (spawnRocket lvl d s) = level s"
  "interceptors (spawnRocket lvl d s) = interceptors s"
  "explosions (spawnRocket lvl d s) = explosions s"
  "cities (spawnRocket lvl d s) = cities s"
  "turrets (spawnRocket lvl d s) = turrets s"
  "lastSpawnTime (spawnRocket lvl d s) = lastSpawnTime s"
  by (simp_all add: spawnRocket_def Let_def)

lemma spawnPhase_fields [simp]:
  "status (spawnPhase time d s) = status s"
  "score (spawnPhase time d s) = score s"
  "level (spawnPhase time d s) = level s"
  "interceptors (spawnPhase time d s) = interceptors s"
  "explosions (spawnPhase time d s) = explosions s"
  "cities (spawnPhase time d s) = cities s"
  "turrets (spawnPhase time d s) = turrets s"
  by (simp_all add: spawnPhase_def)

lemma updateRockets_fields [simp]:
  "score (updateRockets s) = score s"
  "level (updateRockets s) = level s"
  "interceptors (updateRockets s) = interceptors s"
  "explosions (updateRockets s) = explosions s"
  "lastSpawnTime (updateRockets s) = lastSpawnTime s"
  "rockets (updateRockets s) = filter (\<lambda>r. \<not> 1 \<le> progress r) (map moveRocket (rockets s))"
  by (simp_all add: updateRockets_eq)

lemma updateInterceptors_fields [simp]:
  "status (updateInterceptors d s) = status s"
  "score (updateInterceptors d s) = score s"
  "level (updateInterceptors d s) = level s"
  "rockets (updateInterceptors d s) = rockets s"
  "cities (updateInterceptors d s) = cities s"
  "turrets (updateInterceptors d s) = turrets s"
  "lastSpawnTime (updateInterceptors d s) = lastSpawnTime s"
  "interceptors (updateInterceptors d s) =
     filter (\<lambda>i. \<not> 1 \<le> progress i) (map moveInterceptor (interceptors s))"
  by (simp_all add: updateInterceptors_eq)

lemma updateExplosions_fields [simp]:
  "level (updateExplosions s) = level s"
  "interceptors (updateExplosions s) = interceptors s"
  "cities (updateExplosions s) = cities s"
  "turrets (updateExplosions s) = turrets s"
  "lastSpawnTime (updateExplosions s) = lastSpawnTime s"
  "explosions (updateExplosions s) = filter (\<lambda>e. 0 < life e) (map advanceExplosion (explosions s))"
  "rockets (updateExplosions s) =
     filter (\<lambda>r. \<not> (\<exists>e \<in> set (explosions s). hits (advanceExplosion e) r)) (rockets s)"
  "score (updateExplosions s) =
     score s + 20 * int (length (filter (\<lambda>r. \<exists>e \<in> set (explosions s). hits (advanceExplosion e) r) (rockets s)))"
  by (simp_all add: updateExplosions_eq filterExplosions_rockets filterExplosions_score)

lemma updateExplosions_status:
  "status (updateExplosions s) =
     (if 1000 \<le> score (updateExplosions s) \<and> score s < score (updateExplosions s)
      then WON else status s)"
  using filterExplosions_status [of "explosions s" s] by (simp add: updateExplosions_eq)

lemma levelUp_fields [simp]:
  "status (levelUp sc lvl s) = status s"
  "score (levelUp sc lvl s) = score s"
  "rockets (levelUp sc lvl s) = rockets s"
  "interceptors (levelUp sc lvl s) = interceptors s"
  "explosions (levelUp sc lvl s) = explosions s"
  "cities (levelUp sc lvl s) = cities s"
  "lastSpawnTime (levelUp sc lvl s) = lastSpawnTime s"
  by (simp_all add: levelUp_def)

lemma update_PLAYING:
  "status s = PLAYING \<Longrightarrow>
   update time d s =
     levelUp (score s) (level s)
       (updateExplosions (updateInterceptors d (updateRockets (spawnPhase time d s))))"
  by (simp add: update_def)

lemma update_not_PLAYING: "status s \<noteq> PLAYING \<Longrightarrow> update time d s = s"
  by (simp add: update_def)

lemma hits_iff:
  "hits e r \<longleftrightarrow> 0 < radius e \<and> (x r - x e)\<^sup>2 + (y r - y e)\<^sup>2 < (radius e)\<^sup>2"
proof -
  have nn: "0 \<le> (x r - x e)\<^sup>2 + (y r - y e)\<^sup>2" by simp
  show ?thesis
  proof (cases "0 < radius e")
    case True
    then have "sqrt ((x r - x e)\<^sup>2 + (y r - y e)\<^sup>2) < radius e \<longleftrightarrow>
               (x r - x e)\<^sup>2 + (y r - y e)\<^sup>2 < (radius e)\<^sup>2"
      using nn by (metis real_sqrt_less_iff real_sqrt_abs abs_of_pos)
    with True show ?thesis by (simp add: hits_def)
  next
    case False
    have "0 \<le> sqrt ((x r - x e)\<^sup>2 + (y r - y e)\<^sup>2)" using nn by simp
    with False have "radius e \<le> sqrt ((x r - x e)\<^sup>2 + (y r - y e)\<^sup>2)" by linarith
    with False show ?thesis by (simp add: hits_def not_less)
  qed
qed

lemmas tick_defs =
  update_def levelUp_def updateExplosions_def updateInterceptors_def updateRockets_def
  spawnPhase_def spawnInterval_def spawnRocket_def spawnTargets_def impact_def addScore_def
  newExplosion_def moveRocket_def moveInterceptor_def advanceExplosion_def atTarget_def
  hits_iff Let_def TARGET_SCORE_def CANVAS_WIDTH_def INITIAL_CITIES_def INITIAL_TURRETS_def
  power2_eq_square

lemma score_update_mono: "score s \<le> score (update time d s)"
  by (cases "status s = PLAYING") (simp_all add: update_PLAYING update_not_PLAYING)

section \<open>Scoring\<close>

text \<open>
  Claim C2. Over every sequence of ticks the score never decreases. In a tick executed
  while the status is \<open>PLAYING\<close> it grows by exactly 20 for each rocket destroyed by
  an explosion, that is for each rocket, among those that reach the explosion pass, whose
  Euclidean distance to the centre of some explosion is strictly below that explosion's
  radius of this tick (\<open>hits\<close>); the rockets left in the store are exactly the others, so
  a rocket that was scored is gone and cannot be scored again.
\<close>

theorem score_counts_destroyed_rockets:
  "score s \<le> score (run ticks s) \<and>
   (status s = PLAYING \<longrightarrow>
      score (update time d s) =
        score s + 20 * int (length (filter
          (\<lambda>r. \<exists>e \<in> set (explosions (beforeCollisions time d s)). hits (advanceExplosion e) r)
          (rockets (beforeCollisions time d s)))) \<and>
      rockets (update time d s) =
        filter (\<lambda>r. \<not> (\<exists>e \<in> set (explosions (beforeCollisions time d s)). hits (advanceExplosion e) r))
          (rockets (beforeCollisions time d s)))"
proof -
  have "score s \<le> score (run ticks s)"
  proof (induction ticks arbitrary: s)
    case Nil
    show ?case by simp
  next
    case (Cons td ticks)
    obtain t' d' where td: "td = (t', d')" by (cases td)
    have "score s \<le> score (update t' d' s)" by (rule score_update_mono)
    also have "\<dots> \<le> score (run ticks (update t' d' s))" by (rule Cons.IH)
    finally show ?case by (simp add: td)
  qed
  then show ?thesis
    by (simp add: update_PLAYING beforeCollisions_def)
qed

theorem score_counts_destroyed_rockets_witness:
  "status exampleBlast = PLAYING \<and> score exampleBlast = 340 \<and>
   length (rockets exampleBlast) = 2 \<and>
   score (update 5100 exampleDraws exampleBlast) = 360 \<and>
   map ident (rockets (update 5100 exampleDraws exampleBlast)) = [''r2''] \<and>
   score (run [(5100, exampleDraws), (5116, exampleDraws)] exampleBlast) = 360"
  using score_counts_destroyed_rockets
    [of exampleBlast "[(5100, exampleDraws), (5116, exampleDraws)]" 5100 exampleDraws]
  by (simp add: exampleBlast_def exampleDraws_def beforeCollisions_def tick_defs)

section \<open>Interceptors and the explosions they create\<close>

lemma beforeCollisions_fields [simp]:
  "score (beforeCollisions time d s) = score s"
  "level (beforeCollisions time d s) = level s"
  "interceptors (beforeCollisions time d s) =
     filter (\<lambda>i. \<not> 1 \<le> progress i) (map moveInterceptor (interceptors s))"
  "rockets (beforeCollisions time d s) =
     filter (\<lambda>r. \<not> 1 \<le> progress r) (map moveRocket (rockets (spawnPhase time d s)))"
  by (simp_all add: beforeCollisions_def)

lemma update_explosions:
  "status s = PLAYING \<Longrightarrow>
   explosions (update time d s) =
     filter (\<lambda>e. 0 < life e) (map advanceExplosion (explosions (beforeCollisions time d s)))"
  by (simp add: update_PLAYING beforeCollisions_def)

text \<open>
  Claim C8. In a tick executed while the status is \<open>PLAYING\<close>, every interceptor whose
  progress reaches 1 or more is removed from the store in that tick, and for each of them,
  in order, exactly one explosion is appended to the store: centred at the interceptor's
  target point, with radius 0, maximal radius 40, the expanding flag set and life 1. (The
  explosion pass of the same tick then advances every explosion of the store once, the new
  ones too.)
\<close>

theorem interceptor_detonates:
  "status s = PLAYING \<longrightarrow>
     interceptors (update time d s) =
       filter (\<lambda>i. progress i < 1) (map moveInterceptor (interceptors s)) \<and>
     explosions (beforeCollisions time d s) =
       explosions s @
       map (\<lambda>(n, i). \<lparr>x = targetX i, y = targetY i, ident = explosionIds d n,
                       radius = 0, maxRadius = 40, expanding = True, life = 1\<rparr>)
         (enumerate 0 (filter (\<lambda>i. 1 \<le> progress i) (map moveInterceptor (interceptors s)))) \<and>
     length (explosions (beforeCollisions time d s)) =
       length (explosions s) +
       length (filter (\<lambda>i. 1 \<le> progress i) (map moveInterceptor (interceptors s))) \<and>
     explosions (update time d s) =
       filter (\<lambda>e. 0 < life e) (map advanceExplosion (explosions (beforeCollisions time d s)))"
proof
  assume p: "status s = PLAYING"
  have nl: "(\<lambda>i::Interceptor. \<not> 1 \<le> progress i) = (\<lambda>i. progress i < 1)"
    by (auto simp: not_le)
  have a: "interceptors (update time d s) =
       filter (\<lambda>i. progress i < 1) (map moveInterceptor (interceptors s))"
    using p by (simp add: update_PLAYING nl)
  have b: "explosions (beforeCollisions time d s) =
       explosions s @
       map (\<lambda>(n, i). \<lparr>x = targetX i, y = targetY i, ident = explosionIds d n,
                       radius = 0, maxRadius = 40, expanding = True, life = 1\<rparr>)
         (enumerate 0 (filter (\<lambda>i. 1 \<le> progress i) (map moveInterceptor (interceptors s))))"
    by (simp add: beforeCollisions_def updateInterceptors_eq newExplosion_def)
  have c: "length (explosions (beforeCollisions time d s)) =
       length (explosions s) +
       length (filter (\<lambda>i. 1 \<le> progress i) (map moveInterceptor (interceptors s)))"
    unfolding b by simp
  from a b c update_explosions [OF p, of time d]
  show "interceptors (update time d s) =
       filter (\<lambda>i. progress i < 1) (map moveInterceptor (interceptors s)) \<and>
     explosions (beforeCollisions time d s) =
       explosions s @
       map (\<lambda>(n, i). \<lparr>x = targetX i, y = targetY i, ident = explosionIds d n,
                       radius = 0, maxRadius = 40, expanding = True, life = 1\<rparr>)
         (enumerate 0 (filter (\<lambda>i. 1 \<le> progress i) (map moveInterceptor (interceptors s)))) \<and>
     length (explosions (beforeCollisions time d s)) =
       length (explosions s) +
       length (filter (\<lambda>i. 1 \<le> progress i) (map moveInterceptor (interceptors s))) \<and>
     explosions (update time d s) =
       filter (\<lambda>e. 0 < life e) (map advanceExplosion (explosions (beforeCollisions time d s)))"
    by (intro conjI)
qed

theorem interceptor_detonates_witness:
  "status exampleVolley = PLAYING \<and>
   map progress (interceptors exampleVolley) = [0.99, 0] \<and>
   map ident (interceptors (update 5100 exampleDraws exampleVolley)) = [''i2''] \<and>
   explosions (beforeCollisions 5100 exampleDraws exampleVolley) =
     [\<lparr>x = 100, y = 100, ident = ''e1'', radius = 12, maxRadius = 40,
       expanding = True, life = 1\<rparr>,
      \<lparr>x = 300, y = 300, ident = ''e9'', radius = 0, maxRadius = 40,
       expanding = True, life = 1\<rparr>] \<and>
   map radius (explosions (update 5100 exampleDraws exampleVolley)) = [14, 2]"
  using interceptor_detonates [of exampleVolley 5100 exampleDraws]
  by (simp add: exampleVolley_def exampleDraws_def beforeCollisions_def tick_defs)

section \<open>Kinematics\<close>

lemma moveRocket_fields:
  "progress (moveRocket r) = progress r + speed r"
  "x (moveRocket r) = x r + (targetX r - x r) * speed r / (1 - (progress r + speed r) + 0.001)"
  "y (moveRocket r) = y r + (targetY r - y r) * speed r / (1 - (progress r + speed r) + 0.001)"
  "targetX (moveRocket r) = targetX r"
  "targetY (moveRocket r) = targetY r"
  "speed (moveRocket r) = speed r"
  "ident (moveRocket r) = ident r"
  by (simp_all add: moveRocket_def Let_def)

lemma moveInterceptor_fields:
  "progress (moveInterceptor i) = progress i + speed i"
  "x (moveInterceptor i) = startX i + (targetX i - startX i) * (progress i + speed i)"
  "y (moveInterceptor i) = startY i + (targetY i - startY i) * (progress i + speed i)"
  "targetX (moveInterceptor i) = targetX i"
  "targetY (moveInterceptor i) = targetY i"
  "startX (moveInterceptor i) = startX i"
  "startY (moveInterceptor i) = startY i"
  "speed (moveInterceptor i) = speed i"
  "ident (moveInterceptor i) = ident i"
  by (simp_all add: moveInterceptor_def Let_def)

lemma update_rockets:
  "status s = PLAYING \<Longrightarrow>
   rockets (update time d s) =
     filter (\<lambda>r. \<not> (\<exists>e \<in> set (explosions (beforeCollisions time d s)). hits (advanceExplosion e) r))
       (filter (\<lambda>r. \<not> 1 \<le> progress r) (map moveRocket (rockets (spawnPhase time d s))))"
  by (simp add: update_PLAYING beforeCollisions_def)

lemma update_interceptors:
  "status s = PLAYING \<Longrightarrow>
   interceptors (update time d s) =
     filter (\<lambda>i. \<not> 1 \<le> progress i) (map moveInterceptor (interceptors s))"
  by (simp add: update_PLAYING)

text \<open>
  Claim C7. In a tick executed while the status is \<open>PLAYING\<close>, every rocket of the store
  has its progress incremented by its speed and moves towards its target by the fraction
  \<open>speed / (1 - progress + 0.001)\<close> of the remaining distance, on each axis; every
  interceptor has its progress incremented by its own speed and is placed at
  \<open>start + (target - start) * progress\<close>. In both formulas \<open>progress\<close> is the field
  as the position update reads it, after the increment of the tick. The rockets and
  interceptors that remain in the store are related in this way to those the tick started
  with (for the rockets: after spawning).
\<close>

theorem kinematics_per_tick:
  "status s = PLAYING \<longrightarrow>
     (\<forall>r' \<in> set (rockets (update time d s)). \<exists>r \<in> set (rockets (spawnPhase time d s)).
        progress r' = progress r + speed r \<and>
        x r' = x r + (targetX r - x r) * (speed r / (1 - progress r' + 0.001)) \<and>
        y r' = y r + (targetY r - y r) * (speed r / (1 - progress r' + 0.001)) \<and>
        targetX r' = targetX r \<and> targetY r' = targetY r \<and> speed r' = speed r \<and>
        ident r' = ident r) \<and>
     (\<forall>i' \<in> set (interceptors (update time d s)). \<exists>i \<in> set (interceptors s).
        progress i' = progress i + speed i \<and>
        x i' = startX i + (targetX i - startX i) * progress i' \<and>
        y i' = startY i + (targetY i - startY i) * progress i' \<and>
        targetX i' = targetX i \<and> targetY i' = targetY i \<and>
        startX i' = startX i \<and> startY i' = startY i \<and> speed i' = speed i \<and>
        ident i' = ident i) \<and>
     rockets (beforeCollisions time d s) =
       filter (\<lambda>r. progress r < 1) (map moveRocket (rockets (spawnPhase time d s))) \<and>
     interceptors (update time d s) =
       filter (\<lambda>i. progress i < 1) (map moveInterceptor (interceptors s))"
proof
  assume p: "status s = PLAYING"
  have nlr: "(\<lambda>r::Rocket. \<not> 1 \<le> progress r) = (\<lambda>r. progress r < 1)"
    and nli: "(\<lambda>i::Interceptor. \<not> 1 \<le> progress i) = (\<lambda>i. progress i < 1)"
    by (auto simp: not_le)
  have r: "\<forall>r' \<in> set (rockets (update time d s)). \<exists>r \<in> set (rockets (spawnPhase time d s)).
        progress r' = progress r + speed r \<and>
        x r' = x r + (targetX r - x r) * (speed r / (1 - progress r' + 0.001)) \<and>
        y r' = y r + (targetY r - y r) * (speed r / (1 - progress r' + 0.001)) \<and>
        targetX r' = targetX r \<and> targetY r' = targetY r \<and> speed r' = speed r \<and>
        ident r' = ident r"
  proof
    fix r' assume "r' \<in> set (rockets (update time d s))"
    then obtain r where "r \<in> set (rockets (spawnPhase time d s))" "r' = moveRocket r"
      unfolding update_rockets [OF p] by auto
    then show "\<exists>r \<in> set (rockets (spawnPhase time d s)).
        progress r' = progress r + speed r \<and>
        x r' = x r + (targetX r - x r) * (speed r / (1 - progress r' + 0.001)) \<and>
        y r' = y r + (targetY r - y r) * (speed r / (1 - progress r' + 0.001)) \<and>
        targetX r' = targetX r \<and> targetY r' = targetY r \<and> speed r' = speed r \<and>
        ident r' = ident r"
      by (intro bexI [of _ r]) (simp_all add: moveRocket_fields)
  qed
  have i: "\<forall>i' \<in> set (interceptors (update time d s)). \<exists>i \<in> set (interceptors s).
        progress i' = progress i + speed i \<and>
        x i' = startX i + (targetX i - startX i) * progress i' \<and>
        y i' = startY i + (targetY i - startY i) * progress i' \<and>
        targetX i' = targetX i \<and> targetY i' = targetY i \<and>
        startX i' = startX i \<and> startY i' = startY i \<and> speed i' = speed i \<and>
        ident i' = ident i"
  proof
    fix i' assume "i' \<in> set (interceptors (update time d s))"
    then obtain i where "i \<in> set (interceptors s)" "i' = moveInterceptor i"
      unfolding update_interceptors [OF p] by auto
    then show "\<exists>i \<in> set (interceptors s).
        progress i' = progress i + speed i \<and>
        x i' = startX i + (targetX i - startX i) * progress i' \<and>
        y i' = startY i + (targetY i - startY i) * progress i' \<and>
        targetX i' = targetX i \<and> targetY i' = targetY i \<and>
        startX i' = startX i \<and> startY i' = startY i \<and> speed i' = speed i \<and>
        ident i' = ident i"
      by (intro bexI [of _ i]) (simp_all add: moveInterceptor_fields)
  qed
  have rl: "rockets (beforeCollisions time d s) =
       filter (\<lambda>r. progress r < 1) (map moveRocket (rockets (spawnPhase time d s)))"
    by (simp add: nlr)
  have il: "interceptors (update time d s) =
       filter (\<lambda>i. progress i < 1) (map moveInterceptor (interceptors s))"
    using update_interceptors [OF p, of time d] by (simp add: nli)
  from r i rl il
  show "(\<forall>r' \<in> set (rockets (update time d s)). \<exists>r \<in> set (rockets (spawnPhase time d s)).
        progress r' = progress r + speed r \<and>
        x r' = x r + (targetX r - x r) * (speed r / (1 - progress r' + 0.001)) \<and>
        y r' = y r + (targetY r - y r) * (speed r / (1 - progress r' + 0.001)) \<and>
        targetX r' = targetX r \<and> targetY r' = targetY r \<and> speed r' = speed r \<and>
        ident r' = ident r) \<and>
     (\<forall>i' \<in> set (interceptors (update time d s)). \<exists>i \<in> set (interceptors s).
        progress i' = progress i + speed i \<and>
        x i' = startX i + (targetX i - startX i) * progress i' \<and>
        y i' = startY i + (targetY i - startY i) * progress i' \<and>
        targetX i' = targetX i \<and> targetY i' = targetY i \<and>
        startX i' = startX i \<and> startY i' = startY i \<and> speed i' = speed i \<and>
        ident i' = ident i) \<and>
     rockets (beforeCollisions time d s) =
       filter (\<lambda>r. progress r < 1) (map moveRocket (rockets (spawnPhase time d s))) \<and>
     interceptors (update time d s) =
       filter (\<lambda>i. progress i < 1) (map moveInterceptor (interceptors s))"
    by (intro conjI)
qed

theorem kinematics_per_tick_witness:
  "status exampleVolley = PLAYING \<and>
   rockets exampleVolley =
     [\<lparr>x = 500, y = 100, ident = ''r2'', targetX = 400, targetY = 550,
       speed = 0.0009, progress = 0.25\<rparr>] \<and>
   rockets (update 5100 exampleDraws exampleVolley) =
     [\<lparr>x = 500 + (400 - 500) * (0.0009 / (1 - 0.2509 + 0.001)),
       y = 100 + (550 - 100) * (0.0009 / (1 - 0.2509 + 0.001)),
       ident = ''r2'', targetX = 400, targetY = 550, speed = 0.0009, progress = 0.2509\<rparr>] \<and>
   interceptors (update 5100 exampleDraws exampleVolley) =
     [\<lparr>x = 80 + (200 - 80) * 0.02, y = 550 + (150 - 550) * 0.02, ident = ''i2'',
       targetX = 200, targetY = 150, speed = 0.02, progress = 0.02,
       startX = 80, startY = 550\<rparr>]"
  using kinematics_per_tick [of exampleVolley 5100 exampleDraws]
  by (simp add: exampleVolley_def exampleDraws_def beforeCollisions_def tick_defs)

section \<open>Impacts\<close>

lemma faded_refl: "faded cs cs"
  by (simp add: faded_def list_all2_refl)

lemma faded_trans: "faded cs cs' \<Longrightarrow> faded cs' cs'' \<Longrightarrow> faded cs cs''"
  by (auto simp: faded_def list_all2_conv_all_nth)

lemma faded_deactivateFirst: "faded cs (deactivateFirst P cs)"
  by (induction cs) (simp_all add: faded_def list_all2_refl)

lemma atTarget_active [simp]: "atTarget r (c\<lparr>active := b\<rparr>) = atTarget r c"
  by (simp add: atTarget_def)

lemma atTarget_moveRocket [simp]: "atTarget (moveRocket r) c = atTarget r c"
  by (simp add: atTarget_def moveRocket_fields)

lemma deactivateFirst_hit:
  "\<exists>c \<in> set cs. atTarget r c \<Longrightarrow>
   \<exists>c' \<in> set (deactivateFirst (atTarget r) cs). atTarget r c' \<and> \<not> active c'"
  by (induction cs) auto

lemma faded_keeps_hit:
  assumes "faded cs cs'" and "c \<in> set cs" and "atTarget r c" and "\<not> active c"
  shows "\<exists>c' \<in> set cs'. atTarget r c' \<and> \<not> active c'"
proof -
  from assms(2) obtain n where n: "n < length cs" "cs ! n = c"
    by (auto simp: in_set_conv_nth)
  from assms(1) n have "n < length cs'" "x (cs' ! n) = x c" "y (cs' ! n) = y c"
    "active (cs' ! n) \<longrightarrow> active c"
    by (auto simp: faded_def list_all2_conv_all_nth)
  with assms(3,4) have "cs' ! n \<in> set cs'" "atTarget r (cs' ! n)" "\<not> active (cs' ! n)"
    by (auto simp: atTarget_def)
  then show ?thesis by blast
qed

lemma faded_keeps_target:
  assumes "faded cs cs'" and "\<exists>c \<in> set cs. atTarget r c"
  shows "\<exists>c' \<in> set cs'. atTarget r c'"
proof -
  from assms(2) obtain n where n: "n < length cs" "atTarget r (cs ! n)"
    by (auto simp: in_set_conv_nth)
  from assms(1) n have "n < length cs'" "x (cs' ! n) = x (cs ! n)" "y (cs' ! n) = y (cs ! n)"
    by (auto simp: faded_def list_all2_conv_all_nth)
  with n(2) have "cs' ! n \<in> set cs'" "atTarget r (cs' ! n)"
    by (auto simp: atTarget_def)
  then show ?thesis by blast
qed

lemma faded_all_inactive:
  assumes "faded cs cs'" and "\<forall>c \<in> set cs. \<not> active c"
  shows "\<forall>c' \<in> set cs'. \<not> active c'"
proof
  fix c' assume "c' \<in> set cs'"
  then obtain n where n: "n < length cs'" "cs' ! n = c'"
    by (auto simp: in_set_conv_nth)
  with assms(1) have "n < length cs" "active c' \<longrightarrow> active (cs ! n)"
    by (auto simp: faded_def list_all2_conv_all_nth)
  with assms(2) show "\<not> active c'" using nth_mem by blast
qed

lemma fold_impact_faded:
  "faded (cities s) (cities (fold impact rs s))"
  "faded (turrets s) (turrets (fold impact rs s))"
proof (induction rs arbitrary: s)
  case Nil
  { case 1 show ?case by (simp add: faded_refl) }
  { case 2 show ?case by (simp add: faded_refl) }
next
  case (Cons a rs)
  { case 1
    have "faded (cities s) (cities (impact a s))" by (simp add: faded_deactivateFirst)
    then show ?case using Cons.IH(1) [of "impact a s"] by (auto intro: faded_trans) }
  { case 2
    have "faded (turrets s) (turrets (impact a s))" by (simp add: faded_deactivateFirst)
    then show ?case using Cons.IH(2) [of "impact a s"] by (auto intro: faded_trans) }
qed

lemma fold_impact_hit:
  assumes "r \<in> set rs"
  shows "\<exists>c \<in> set (cities s). atTarget r c \<Longrightarrow>
           \<exists>c' \<in> set (cities (fold impact rs s)). atTarget r c' \<and> \<not> active c'"
    and "\<exists>t \<in> set (turrets s). atTarget r t \<Longrightarrow>
           \<exists>t' \<in> set (turrets (fold impact rs s)). atTarget r t' \<and> \<not> active t'"
  using assms
proof (induction rs arbitrary: s)
  case Nil
  { case 1 then show ?case by simp }
  { case 2 then show ?case by simp }
next
  case (Cons a rs)
  { case 1
    show ?case
    proof (cases "r = a")
      case True
      from 1(1) have "\<exists>c' \<in> set (cities (impact a s)). atTarget r c' \<and> \<not> active c'"
        unfolding True by (simp add: deactivateFirst_hit)
      then show ?thesis
        using faded_keeps_hit [OF fold_impact_faded(1) [of "impact a s" rs]] by auto
    next
      case False
      with 1(2) have r: "r \<in> set rs" by simp
      have "faded (cities s) (cities (impact a s))" by (simp add: faded_deactivateFirst)
      from faded_keeps_target [OF this 1(1)]
      show ?thesis using Cons.IH(1) [OF _ r, of "impact a s"] by simp
    qed }
  { case 2
    show ?case
    proof (cases "r = a")
      case True
      from 2(1) have "\<exists>t' \<in> set (turrets (impact a s)). atTarget r t' \<and> \<not> active t'"
        unfolding True by (simp add: deactivateFirst_hit)
      then show ?thesis
        using faded_keeps_hit [OF fold_impact_faded(2) [of "impact a s" rs]] by auto
    next
      case False
      with 2(2) have r: "r \<in> set rs" by simp
      have "faded (turrets s) (turrets (impact a s))" by (simp add: faded_deactivateFirst)
      from faded_keeps_target [OF this 2(1)]
      show ?thesis using Cons.IH(2) [OF _ r, of "impact a s"] by simp
    qed }
qed

lemma updateRockets_cities_turrets:
  "cities (updateRockets s) =
     cities (fold impact (filter (\<lambda>r. 1 \<le> progress r) (map moveRocket (rockets s))) s)"
  "turrets (updateRockets s) =
     turrets (fold impact (filter (\<lambda>r. 1 \<le> progress r) (map moveRocket (rockets s))) s)"
  "status (updateRockets s) =
     status (fold impact (filter (\<lambda>r. 1 \<le> progress r) (map moveRocket (rockets s))) s)"
  by (simp_all add: updateRockets_eq)

lemma levelUp_faded: "faded (turrets s) (turrets (levelUp sc lvl s))"
  by (simp add: levelUp_def faded_def list_all2_conv_all_nth)

lemma update_cities:
  "status s = PLAYING \<Longrightarrow>
   cities (update time d s) = cities (updateRockets (spawnPhase time d s))"
  by (simp add: update_PLAYING)

lemma update_turrets_faded:
  "status s = PLAYING \<Longrightarrow>
   faded (turrets (updateRockets (spawnPhase time d s))) (turrets (update time d s))"
  using levelUp_faded
    [of "updateExplosions (updateInterceptors d (updateRockets (spawnPhase time d s)))" "score s" "level s"]
  by (simp add: update_PLAYING)


lemma update_impact:
  assumes p: "status s = PLAYING"
    and r: "r \<in> set (rockets (spawnPhase time d s))"
    and fin: "1 \<le> progress r + speed r"
  shows "\<exists>c \<in> set (cities s). atTarget r c \<Longrightarrow>
           \<exists>c' \<in> set (cities (update time d s)). atTarget r c' \<and> \<not> active c'"
    and "\<exists>t \<in> set (turrets s). atTarget r t \<Longrightarrow>
           \<exists>t' \<in> set (turrets (update time d s)). atTarget r t' \<and> \<not> active t'"
proof -
  let ?s1 = "spawnPhase time d s"
  let ?fin = "filter (\<lambda>r. 1 \<le> progress r) (map moveRocket (rockets ?s1))"
  from r fin have m: "moveRocket r \<in> set ?fin"
    by (simp add: moveRocket_fields)
  {
    assume "\<exists>c \<in> set (cities s). atTarget r c"
    then have "\<exists>c \<in> set (cities ?s1). atTarget (moveRocket r) c" by simp
    from fold_impact_hit(1) [OF m this]
    show "\<exists>c' \<in> set (cities (update time d s)). atTarget r c' \<and> \<not> active c'"
      by (simp add: update_cities [OF p] updateRockets_cities_turrets)
  }
  {
    assume "\<exists>t \<in> set (turrets s). atTarget r t"
    then have "\<exists>t \<in> set (turrets ?s1). atTarget (moveRocket r) t" by simp
    from fold_impact_hit(2) [OF m this]
    obtain t' where t': "t' \<in> set (turrets (updateRockets ?s1))" "atTarget r t'" "\<not> active t'"
      by (auto simp: updateRockets_cities_turrets)
    from faded_keeps_hit [OF update_turrets_faded [OF p] t']
    show "\<exists>t' \<in> set (turrets (update time d s)). atTarget r t' \<and> \<not> active t'" .
  }
qed

text \<open>
  Claim C4. In a tick executed while the status is \<open>PLAYING\<close>: no rocket with progress 1
  or more is in the store after the tick; the progress of every rocket that remains is its
  former progress plus its speed, hence not smaller when the speed is positive; and for
  every rocket whose progress reaches 1 or more, the rocket is removed in that tick, and if
  some city lies within 5 units of its target on each axis then after the tick such a city
  is inactive, and likewise for the turrets.
\<close>

theorem rocket_resolves_at_target:
  "status s = PLAYING \<longrightarrow>
     (\<forall>r' \<in> set (rockets (update time d s)). progress r' < 1) \<and>
     (\<forall>r' \<in> set (rockets (update time d s)). \<exists>r \<in> set (rockets (spawnPhase time d s)).
        progress r' = progress r + speed r \<and> (0 < speed r \<longrightarrow> progress r \<le> progress r')) \<and>
     (\<forall>r \<in> set (rockets (spawnPhase time d s)).
        1 \<le> progress r + speed r \<longrightarrow>
          moveRocket r \<notin> set (rockets (update time d s)) \<and>
          ((\<exists>c \<in> set (cities s). atTarget r c) \<longrightarrow>
             (\<exists>c' \<in> set (cities (update time d s)). atTarget r c' \<and> \<not> active c')) \<and>
          ((\<exists>t \<in> set (turrets s). atTarget r t) \<longrightarrow>
             (\<exists>t' \<in> set (turrets (update time d s)). atTarget r t' \<and> \<not> active t')))"
proof
  assume p: "status s = PLAYING"
  have a: "\<forall>r' \<in> set (rockets (update time d s)). progress r' < 1"
    unfolding update_rockets [OF p] by auto
  have b: "\<forall>r' \<in> set (rockets (update time d s)). \<exists>r \<in> set (rockets (spawnPhase time d s)).
        progress r' = progress r + speed r \<and> (0 < speed r \<longrightarrow> progress r \<le> progress r')"
  proof
    fix r' assume "r' \<in> set (rockets (update time d s))"
    then obtain r where "r \<in> set (rockets (spawnPhase time d s))" "r' = moveRocket r"
      unfolding update_rockets [OF p] by auto
    then show "\<exists>r \<in> set (rockets (spawnPhase time d s)).
        progress r' = progress r + speed r \<and> (0 < speed r \<longrightarrow> progress r \<le> progress r')"
      by (intro bexI [of _ r]) (simp_all add: moveRocket_fields)
  qed
  have c: "\<forall>r \<in> set (rockets (spawnPhase time d s)).
        1 \<le> progress r + speed r \<longrightarrow>
          moveRocket r \<notin> set (rockets (update time d s)) \<and>
          ((\<exists>c \<in> set (cities s). atTarget r c) \<longrightarrow>
             (\<exists>c' \<in> set (cities (update time d s)). atTarget r c' \<and> \<not> active c')) \<and>
          ((\<exists>t \<in> set (turrets s). atTarget r t) \<longrightarrow>
             (\<exists>t' \<in> set (turrets (update time d s)). atTarget r t' \<and> \<not> active t'))"
  proof (intro ballI impI conjI)
    fix r assume r: "r \<in> set (rockets (spawnPhase time d s))" and fin: "1 \<le> progress r + speed r"
    from a fin show "moveRocket r \<notin> set (rockets (update time d s))"
      by (auto simp: moveRocket_fields)
    show "\<exists>c' \<in> set (cities (update time d s)). atTarget r c' \<and> \<not> active c'"
      if "\<exists>c \<in> set (cities s). atTarget r c"
      using update_impact(1) [OF p r fin that] .
    show "\<exists>t' \<in> set (turrets (update time d s)). atTarget r t' \<and> \<not> active t'"
      if "\<exists>t \<in> set (turrets s). atTarget r t"
      using update_impact(2) [OF p r fin that] .
  qed
  from a b c
  show "(\<forall>r' \<in> set (rockets (update time d s)). progress r' < 1) \<and>
     (\<forall>r' \<in> set (rockets (update time d s)). \<exists>r \<in> set (rockets (spawnPhase time d s)).
        progress r' = progress r + speed r \<and> (0 < speed r \<longrightarrow> progress r \<le> progress r')) \<and>
     (\<forall>r \<in> set (rockets (spawnPhase time d s)).
        1 \<le> progress r + speed r \<longrightarrow>
          moveRocket r \<notin> set (rockets (update time d s)) \<and>
          ((\<exists>c \<in> set (cities s). atTarget r c) \<longrightarrow>
             (\<exists>c' \<in> set (cities (update time d s)). atTarget r c' \<and> \<not> active c')) \<and>
          ((\<exists>t \<in> set (turrets s). atTarget r t) \<longrightarrow>
             (\<exists>t' \<in> set (turrets (update time d s)). atTarget r t' \<and> \<not> active t')))"
    by (intro conjI)
qed

theorem rocket_resolves_at_target_witness:
  "status exampleImpact = PLAYING \<and>
   map progress (rockets exampleImpact) = [0.9995, 0.25] \<and>
   map speed (rockets exampleImpact) = [0.0009, 0.0009] \<and>
   map active (cities exampleImpact) = [True, True, True, True, True, True] \<and>
   map ident (rockets (update 5100 exampleDraws exampleImpact)) = [''r2''] \<and>
   map progress (rockets (update 5100 exampleDraws exampleImpact)) = [0.2509] \<and>
   map active (cities (update 5100 exampleDraws exampleImpact)) =
     [False, True, True, True, True, True] \<and>
   map active (turrets (update 5100 exampleDraws exampleImpact)) = [True, True, True]"
  using rocket_resolves_at_target [of exampleImpact 5100 exampleDraws]
  by (simp add: exampleImpact_def exampleDraws_def tick_defs)

section \<open>Spawning\<close>






section \<open>Ammo\<close>

lemma ammoKept_refl: "ammoKept ts ts"
  by (simp add: ammoKept_def list_all2_refl)

lemma ammoKept_trans: "ammoKept ts ts' \<Longrightarrow> ammoKept ts' ts'' \<Longrightarrow> ammoKept ts ts''"
  by (auto simp: ammoKept_def list_all2_conv_all_nth)

lemma ammoKept_deactivateFirst: "ammoKept ts (deactivateFirst P ts)"
  by (induction ts) (simp_all add: ammoKept_def list_all2_refl)

lemma ammoKept_fold_impact: "ammoKept (turrets s) (turrets (fold impact rs s))"
proof (induction rs arbitrary: s)
  case Nil
  show ?case by (simp add: ammoKept_refl)
next
  case (Cons a rs)
  have "ammoKept (turrets s) (turrets (impact a s))" by (simp add: ammoKept_deactivateFirst)
  then show ?case using Cons.IH [of "impact a s"] by (auto intro: ammoKept_trans)
qed

lemma ammoRefilled_levelUp: "ammoRefilled (turrets s) (turrets (levelUp sc lvl s))"
proof (cases "sc > lvl * 200 \<and> lvl < 5")
  case True
  then have "turrets (levelUp sc lvl s) =
      map (\<lambda>t. if active t then t\<lparr>ammo := maxAmmo t\<rparr> else t) (turrets s)"
    by (simp add: levelUp_def)
  then show ?thesis by (simp add: ammoRefilled_def list_all2_conv_all_nth)
next
  case False
  then have "levelUp sc lvl s = s" unfolding levelUp_def by (rule if_not_P)
  then show ?thesis by (simp add: ammoRefilled_def list_all2_refl)
qed

lemma ammoKept_Refilled:
  "ammoKept ts ts' \<Longrightarrow> ammoRefilled ts' ts'' \<Longrightarrow> ammoRefilled ts ts''"
  by (auto simp: ammoKept_def ammoRefilled_def list_all2_conv_all_nth)

lemma update_ammo: "ammoRefilled (turrets s) (turrets (update time d s))"
proof (cases "status s = PLAYING")
  case True
  let ?s1 = "spawnPhase time d s"
  let ?m = "updateExplosions (updateInterceptors d (updateRockets ?s1))"
  have "ammoKept (turrets s) (turrets ?m)"
    using ammoKept_fold_impact
      [of ?s1 "filter (\<lambda>r. 1 \<le> progress r) (map moveRocket (rockets ?s1))"]
    by (simp add: updateRockets_cities_turrets)
  from ammoKept_Refilled [OF this ammoRefilled_levelUp [of ?m "score s" "level s"]]
  show ?thesis by (simp add: update_PLAYING [OF True])
next
  case False
  then show ?thesis by (simp add: update_not_PLAYING ammoRefilled_def list_all2_refl)
qed

lemma ammo_range_click:
  assumes "\<forall>t \<in> set (turrets s). 0 \<le> ammo t \<and> ammo t \<le> maxAmmo t"
  shows "\<forall>t \<in> set (turrets (handleCanvasClick px py newId s)). 0 \<le> ammo t \<and> ammo t \<le> maxAmmo t"
proof -
  from handleCanvasClick_turrets [of px py newId s] show ?thesis
  proof (elim disjE exE conjE)
    assume "turrets (handleCanvasClick px py newId s) = turrets s"
    with assms show ?thesis by (simp only:)
  next
    fix k
    assume 2: "k < length (turrets s)" "0 < ammo (turrets s ! k)"
        "turrets (handleCanvasClick px py newId s) =
          (turrets s)[k := (turrets s ! k)\<lparr>ammo := ammo (turrets s ! k) - 1\<rparr>]"
    define old where "old = turrets s ! k"
    define new where "new = old\<lparr>ammo := ammo old - 1\<rparr>"
    from 2(1) have "old \<in> set (turrets s)" unfolding old_def by simp
    with assms have o: "0 \<le> ammo old" "ammo old \<le> maxAmmo old" by blast+
    from 2(2) have pos: "0 < ammo old" unfolding old_def .
    have an: "ammo new = ammo old - 1" and mn: "maxAmmo new = maxAmmo old"
      unfolding new_def by simp_all
    from o pos have new: "0 \<le> ammo new \<and> ammo new \<le> maxAmmo new"
      unfolding an mn by linarith
    have upd: "turrets (handleCanvasClick px py newId s) = (turrets s)[k := new]"
      unfolding new_def old_def by (rule 2(3))
    show ?thesis
    proof
      fix t assume "t \<in> set (turrets (handleCanvasClick px py newId s))"
      then have "t \<in> set ((turrets s)[k := new])" by (simp only: upd)
      with set_update_subset_insert [of "turrets s" k new]
      have "t \<in> insert new (set (turrets s))" by (rule subsetD)
      then have "t = new \<or> t \<in> set (turrets s)" by (simp only: insert_iff)
      then show "0 \<le> ammo t \<and> ammo t \<le> maxAmmo t"
      proof
        assume "t = new"
        with new show ?thesis by (simp only:)
      next
        assume "t \<in> set (turrets s)"
        with assms show ?thesis by (rule bspec)
      qed
    qed
  qed
qed

lemma ammo_range_update:
  assumes "\<forall>t \<in> set (turrets s). 0 \<le> ammo t \<and> ammo t \<le> maxAmmo t"
  shows "\<forall>t \<in> set (turrets (update time d s)). 0 \<le> ammo t \<and> ammo t \<le> maxAmmo t"
proof
  fix t' assume "t' \<in> set (turrets (update time d s))"
  then obtain n where n: "n < length (turrets (update time d s))" "turrets (update time d s) ! n = t'"
    by (auto simp: in_set_conv_nth)
  from update_ammo [of s time d] n
  have "n < length (turrets s)" "maxAmmo t' = maxAmmo (turrets s ! n)"
    "ammo t' = ammo (turrets s ! n) \<or> ammo t' = maxAmmo (turrets s ! n)"
    by (auto simp: ammoRefilled_def list_all2_conv_all_nth)
  moreover from this(1) assms
  have "0 \<le> ammo (turrets s ! n) \<and> ammo (turrets s ! n) \<le> maxAmmo (turrets s ! n)" by simp
  ultimately show "0 \<le> ammo t' \<and> ammo t' \<le> maxAmmo t'" by auto
qed

lemma reachable_ammo_range:
  "reachable s \<Longrightarrow> \<forall>t \<in> set (turrets s). 0 \<le> ammo t \<and> ammo t \<le> maxAmmo t"
proof (induction rule: reachable.induct)
  case reachable_init
  show ?case by (simp add: initialState_def INITIAL_TURRETS_def)
next
  case (reachable_reset s)
  show ?case by (simp add: resetGame_def INITIAL_TURRETS_def)
next
  case (reachable_click s px py newId)
  from reachable_click.IH show ?case by (rule ammo_range_click)
next
  case (reachable_tick s d time)
  from reachable_tick.IH show ?case by (rule ammo_range_update)
qed

text \<open>
  Claim C10. In every reachable state the ammo of every turret is at least 0 (and at most
  its maximal ammo). The ammo is written in two places only: a click leaves the turrets as
  they are or takes exactly one from the ammo of one turret whose ammo is above 0, and a
  tick leaves the ammo of a turret as it is or sets it to the turret's maximal ammo (the
  refill of a level-up). So each of the two operations preserves the range from 0 to the
  maximal ammo, which the initial table satisfies.
\<close>

theorem ammo_never_negative:
  "(reachable s \<longrightarrow> (\<forall>t \<in> set (turrets s). 0 \<le> ammo t \<and> ammo t \<le> maxAmmo t)) \<and>
   (turrets (handleCanvasClick px py newId s) = turrets s \<or>
    (\<exists>k < length (turrets s). 0 < ammo (turrets s ! k) \<and>
       turrets (handleCanvasClick px py newId s) =
         (turrets s)[k := (turrets s ! k)\<lparr>ammo := ammo (turrets s ! k) - 1\<rparr>])) \<and>
   list_all2 (\<lambda>t t'. maxAmmo t' = maxAmmo t \<and> (ammo t' = ammo t \<or> ammo t' = maxAmmo t))
     (turrets s) (turrets (update time d s)) \<and>
   ((\<forall>t \<in> set (turrets s). 0 \<le> ammo t \<and> ammo t \<le> maxAmmo t) \<longrightarrow>
      (\<forall>t \<in> set (turrets (handleCanvasClick px py newId s)). 0 \<le> ammo t \<and> ammo t \<le> maxAmmo t) \<and>
      (\<forall>t \<in> set (turrets (update time d s)). 0 \<le> ammo t \<and> ammo t \<le> maxAmmo t))"
proof (intro conjI impI)
  show "\<forall>t \<in> set (turrets s). 0 \<le> ammo t \<and> ammo t \<le> maxAmmo t" if "reachable s"
    using that by (rule reachable_ammo_range)
  show "turrets (handleCanvasClick px py newId s) = turrets s \<or>
    (\<exists>k < length (turrets s). 0 < ammo (turrets s ! k) \<and>
       turrets (handleCanvasClick px py newId s) =
         (turrets s)[k := (turrets s ! k)\<lparr>ammo := ammo (turrets s ! k) - 1\<rparr>])"
    by (rule handleCanvasClick_turrets)
  show "list_all2 (\<lambda>t t'. maxAmmo t' = maxAmmo t \<and> (ammo t' = ammo t \<or> ammo t' = maxAmmo t))
     (turrets s) (turrets (update time d s))"
    using update_ammo [of s time d] unfolding ammoRefilled_def .
  show "\<forall>t \<in> set (turrets (handleCanvasClick px py newId s)). 0 \<le> ammo t \<and> ammo t \<le> maxAmmo t"
    if "\<forall>t \<in> set (turrets s). 0 \<le> ammo t \<and> ammo t \<le> maxAmmo t"
    using that by (rule ammo_range_click)
  show "\<forall>t \<in> set (turrets (update time d s)). 0 \<le> ammo t \<and> ammo t \<le> maxAmmo t"
    if "\<forall>t \<in> set (turrets s). 0 \<le> ammo t \<and> ammo t \<le> maxAmmo t"
    using that by (rule ammo_range_update)
qed

theorem ammo_never_negative_witness:
  "reachable (handleCanvasClick 240 300 ''i1'' (resetGame initialState)) \<and>
   map ammo (turrets (resetGame initialState)) = [20, 40, 20] \<and>
   map ammo (turrets (handleCanvasClick 240 300 ''i1'' (resetGame initialState))) = [19, 40, 20] \<and>
   map maxAmmo (turrets (handleCanvasClick 240 300 ''i1'' (resetGame initialState))) = [20, 40, 20]"
proof -
  have r: "reachable (handleCanvasClick 240 300 ''i1'' (resetGame initialState))"
    by (intro reachable.intros)
  show ?thesis
    using r ammo_never_negative
      [where s = "handleCanvasClick 240 300 ''i1'' (resetGame initialState)"
         and px = 0 and py = 0 and newId = "''i2''" and time = 16 and d = exampleDraws]
    by (simp add: handleCanvasClick_def fireInterceptor_def resetGame_def initialState_def
        INITIAL_TURRETS_def)
qed

section \<open>Explosions\<close>

lemma explosionInv_new: "explosionInv (newExplosion newId i)"
  unfolding explosionInv_def newExplosion_def by (simp add: exI [of _ 0])

lemma explosionInv_bounds:
  assumes "explosionInv e"
  shows "0 \<le> radius e" and "radius e \<le> maxRadius e" and "0 < life e" and "life e \<le> 1"
    and "expanding e \<Longrightarrow> radius e < maxRadius e"
proof -
  from assms have m: "maxRadius e = 40" by (simp add: explosionInv_def)
  have "0 \<le> radius e \<and> radius e \<le> 40 \<and> 0 < life e \<and> life e \<le> 1 \<and>
        (expanding e \<longrightarrow> radius e < 40)"
  proof (cases "expanding e")
    case True
    with assms obtain k :: nat where "k < 20" "radius e = 2 * real k" "life e = 1"
      by (auto simp: explosionInv_def)
    with True show ?thesis by simp
  next
    case False
    with assms obtain j :: nat where "j < 50" "radius e = 40 - real j / 2" "life e = 1 - real j / 50"
      by (auto simp: explosionInv_def)
    with False show ?thesis by simp
  qed
  with m show "0 \<le> radius e" and "radius e \<le> maxRadius e" and "0 < life e" and "life e \<le> 1"
    and "expanding e \<Longrightarrow> radius e < maxRadius e"
    by simp_all
qed

lemma advanceExplosion_expanding:
  assumes "explosionInv e" and "expanding e"
  shows "radius (advanceExplosion e) = radius e + 2"
    and "life (advanceExplosion e) = life e"
    and "maxRadius (advanceExplosion e) = maxRadius e"
    and "explosionInv (advanceExplosion e)"
proof -
  from assms obtain k :: nat where k: "k < 20" "radius e = 2 * real k" "life e = 1"
    and m: "maxRadius e = 40"
    by (auto simp: explosionInv_def)
  show "radius (advanceExplosion e) = radius e + 2" "life (advanceExplosion e) = life e"
    "maxRadius (advanceExplosion e) = maxRadius e"
    using assms(2) by (simp_all add: advanceExplosion_def Let_def)
  show "explosionInv (advanceExplosion e)"
  proof (cases "k = 19")
    case True
    with k m assms(2) have "\<not> expanding (advanceExplosion e)" "radius (advanceExplosion e) = 40"
      "life (advanceExplosion e) = 1" "maxRadius (advanceExplosion e) = 40"
      by (simp_all add: advanceExplosion_def Let_def)
    then show ?thesis unfolding explosionInv_def by (simp add: exI [of _ 0])
  next
    case False
    with k have k': "Suc k < 20" by simp
    then have "real (Suc k) < 20" by linarith
    with k m assms(2) have f: "expanding (advanceExplosion e)"
      "radius (advanceExplosion e) = 2 * real (Suc k)"
      "life (advanceExplosion e) = 1" "maxRadius (advanceExplosion e) = 40"
      by (simp_all add: advanceExplosion_def Let_def)
    from k' f(2) have "\<exists>n<20. radius (advanceExplosion e) = 2 * real n"
      by (intro exI [of _ "Suc k"] conjI)
    with f show ?thesis unfolding explosionInv_def by simp
  qed
qed

lemma advanceExplosion_contracting:
  assumes "explosionInv e" and "\<not> expanding e"
  shows "\<not> expanding (advanceExplosion e)"
    and "life (advanceExplosion e) = life e - 0.02"
    and "radius (advanceExplosion e) = radius e - 0.5"
    and "maxRadius (advanceExplosion e) = maxRadius e"
    and "0 < life (advanceExplosion e) \<Longrightarrow> explosionInv (advanceExplosion e)"
proof -
  from assms obtain j :: nat where j: "j < 50" "radius e = 40 - real j / 2" "life e = 1 - real j / 50"
    and m: "maxRadius e = 40"
    by (auto simp: explosionInv_def)
  show a: "\<not> expanding (advanceExplosion e)" "life (advanceExplosion e) = life e - 0.02"
    "radius (advanceExplosion e) = radius e - 0.5" "maxRadius (advanceExplosion e) = maxRadius e"
    using assms(2) by (simp_all add: advanceExplosion_def Let_def)
  assume "0 < life (advanceExplosion e)"
  with a(2) j(3) have "real (Suc j) < 50" by simp
  then have j': "Suc j < 50" by linarith
  have "radius (advanceExplosion e) = 40 - real (Suc j) / 2"
    "life (advanceExplosion e) = 1 - real (Suc j) / 50"
    using a j by (simp_all add: field_simps)
  with j' have "\<exists>n<50. radius (advanceExplosion e) = 40 - real n / 2 \<and>
      life (advanceExplosion e) = 1 - real n / 50"
    by (intro exI [of _ "Suc j"] conjI)
  with a(1,4) m show "explosionInv (advanceExplosion e)"
    unfolding explosionInv_def by simp
qed

lemma explosionInv_advance:
  "explosionInv e \<Longrightarrow> 0 < life (advanceExplosion e) \<Longrightarrow> explosionInv (advanceExplosion e)"
  by (cases "expanding e") (simp_all add: advanceExplosion_expanding advanceExplosion_contracting)

lemma beforeCollisions_explosions:
  "explosions (beforeCollisions time d s) =
     explosions s @ map (\<lambda>(n, i). newExplosion (explosionIds d n) i)
        (enumerate 0 (filter (\<lambda>i. 1 \<le> progress i) (map moveInterceptor (interceptors s))))"
  by (simp add: beforeCollisions_def updateInterceptors_eq)

lemma beforeCollisions_explosionInv:
  assumes "\<forall>e \<in> set (explosions s). explosionInv e"
  shows "\<forall>e \<in> set (explosions (beforeCollisions time d s)). explosionInv e"
  unfolding beforeCollisions_explosions using assms by (auto simp: explosionInv_new)

lemma update_explosionInv:
  assumes "\<forall>e \<in> set (explosions s). explosionInv e"
  shows "\<forall>e \<in> set (explosions (update time d s)). explosionInv e"
proof (cases "status s = PLAYING")
  case True
  show ?thesis
    unfolding update_explosions [OF True]
    using beforeCollisions_explosionInv [OF assms, of time d]
    by (auto simp: explosionInv_advance)
next
  case False
  with assms show ?thesis by (simp add: update_not_PLAYING)
qed

lemma handleCanvasClick_explosions [simp]:
  "explosions (handleCanvasClick px py newId s) = explosions s"
  by (simp add: handleCanvasClick_def fireInterceptor_def Let_def split: option.splits)

lemma reachable_explosionInv:
  "reachable s \<Longrightarrow> \<forall>e \<in> set (explosions s). explosionInv e"
proof (induction rule: reachable.induct)
  case reachable_init
  show ?case by (simp add: initialState_def)
next
  case (reachable_reset s)
  show ?case by (simp add: resetGame_def)
next
  case (reachable_click s px py newId)
  from reachable_click.IH show ?case by simp
next
  case (reachable_tick s d time)
  from reachable_tick.IH show ?case by (rule update_explosionInv)
qed


lemma reachable_run:
  "reachable s \<Longrightarrow> list_all (\<lambda>(time, d). validDraws d) ticks \<Longrightarrow> reachable (run ticks s)"
proof (induction ticks arbitrary: s)
  case Nil
  then show ?case by simp
next
  case (Cons td ticks)
  obtain time d where td: "td = (time, d)" by (cases td)
  from Cons.prems td have "reachable (update time d s)" by (simp add: reachable_tick)
  from Cons.IH [OF this] Cons.prems td show ?case by simp
qed

lemma exampleFlight_reachable: "reachable exampleFlight"
  unfolding exampleFlight_def
  by (intro reachable_run reachable.intros)
    (simp add: exampleDraws_def validDraws_def list_all_iff)

lemma exampleFlight_value:
  "exampleFlight =
     \<lparr>status = PLAYING, score = 0, level = 1, rockets = [],
      interceptors = [\<lparr>x = 80 + (240 - 80) * 0.98, y = 550 + (300 - 550) * 0.98,
                       ident = ''i1'', targetX = 240, targetY = 300, speed = 0.02,
                       progress = 0.98, startX = 80, startY = 550\<rparr>],
      explosions = [], cities = INITIAL_CITIES, turrets = (INITIAL_TURRETS)
        [0 := (INITIAL_TURRETS ! 0)\<lparr>ammo := 19\<rparr>],
      lastSpawnTime = 0\<rparr>"
  by (simp add: exampleFlight_def exampleDraws_def handleCanvasClick_def fireInterceptor_def
      resetGame_def initialState_def eval_nat_numeral tick_defs)


text \<open>
  Claim C3. Every explosion that a tick of a reachable state finds in the store, created
  by this tick or older, has a radius between 0 and its maximal radius and a positive
  life, and still has a radius between 0 and its maximal radius once the tick has advanced
  it. While its expanding flag is set the radius does not decrease; once the flag is
  cleared it stays cleared and the life strictly decreases with each tick; the life never
  increases. The explosions a tick leaves in the store are the advanced ones whose life
  is above 0: an explosion is removed in the tick in which its life reaches 0 or less.
\<close>

theorem explosion_lifecycle:
  "(reachable s \<longrightarrow>
      (\<forall>e \<in> set (explosions (beforeCollisions time d s)).
         0 \<le> radius e \<and> radius e \<le> maxRadius e \<and> 0 < life e \<and>
         0 \<le> radius (advanceExplosion e) \<and>
         radius (advanceExplosion e) \<le> maxRadius (advanceExplosion e) \<and>
         life (advanceExplosion e) \<le> life e \<and>
         (expanding e \<longrightarrow> radius e \<le> radius (advanceExplosion e)) \<and>
         (\<not> expanding e \<longrightarrow>
            \<not> expanding (advanceExplosion e) \<and> life (advanceExplosion e) < life e))) \<and>
   set (explosions s) \<subseteq> set (explosions (beforeCollisions time d s)) \<and>
   (status s = PLAYING \<longrightarrow>
      explosions (update time d s) =
        filter (\<lambda>e. 0 < life e) (map advanceExplosion (explosions (beforeCollisions time d s))))"
proof (intro conjI impI ballI)
  show "set (explosions s) \<subseteq> set (explosions (beforeCollisions time d s))"
    unfolding beforeCollisions_explosions by simp
  show "explosions (update time d s) =
        filter (\<lambda>e. 0 < life e) (map advanceExplosion (explosions (beforeCollisions time d s)))"
    if "status s = PLAYING"
    using that by (rule update_explosions)
next
  fix e
  assume "reachable s" and e: "e \<in> set (explosions (beforeCollisions time d s))"
  then have inv: "explosionInv e"
    using beforeCollisions_explosionInv [OF reachable_explosionInv, of s time d] by blast
  note b = explosionInv_bounds [OF inv]
  from b show "0 \<le> radius e" "radius e \<le> maxRadius e" "0 < life e" by blast+
  show "0 \<le> radius (advanceExplosion e)"
  proof (cases "expanding e")
    case True
    with b(1) advanceExplosion_expanding(1) [OF inv] show ?thesis by simp
  next
    case False
    with inv obtain j :: nat where "j < 50" "radius e = 40 - real j / 2"
      by (auto simp: explosionInv_def)
    with advanceExplosion_contracting(3) [OF inv False] show ?thesis by simp
  qed
  show "radius (advanceExplosion e) \<le> maxRadius (advanceExplosion e)"
  proof (cases "expanding e")
    case True
    with inv obtain k :: nat where "k < 20" "radius e = 2 * real k" "maxRadius e = 40"
      by (auto simp: explosionInv_def)
    with advanceExplosion_expanding(1,3) [OF inv True] show ?thesis by simp
  next
    case False
    with b(2) advanceExplosion_contracting(3,4) [OF inv False] show ?thesis by simp
  qed
  show "life (advanceExplosion e) \<le> life e"
    using advanceExplosion_expanding(2) [OF inv] advanceExplosion_contracting(2) [OF inv]
    by (cases "expanding e") simp_all
  show "radius e \<le> radius (advanceExplosion e)" if "expanding e"
    using advanceExplosion_expanding(1) [OF inv that] by simp
  show "\<not> expanding (advanceExplosion e)" if "\<not> expanding e"
    using advanceExplosion_contracting(1) [OF inv that] .
  show "life (advanceExplosion e) < life e" if "\<not> expanding e"
    using advanceExplosion_contracting(2) [OF inv that] by simp
qed

theorem explosion_lifecycle_witness:
  "reachable exampleFlight \<and> status exampleFlight = PLAYING \<and>
   map progress (interceptors exampleFlight) = [0.98] \<and>
   explosions exampleFlight = [] \<and>
   explosions (beforeCollisions 100 exampleDraws exampleFlight) =
     [\<lparr>x = 240, y = 300, ident = ''e9'', radius = 0, maxRadius = 40,
       expanding = True, life = 1\<rparr>] \<and>
   explosions (update 100 exampleDraws exampleFlight) =
     [\<lparr>x = 240, y = 300, ident = ''e9'', radius = 2, maxRadius = 40,
       expanding = True, life = 1\<rparr>]"
  using exampleFlight_reachable
    explosion_lifecycle [where s = exampleFlight and time = 100 and d = exampleDraws]
  by (simp add: exampleFlight_value exampleDraws_def beforeCollisions_def tick_defs)

section \<open>Win and loss\<close>

lemma impact_status_inv:
  assumes "(status s = PLAYING \<and> (\<exists>t \<in> set (turrets s). active t)) \<or>
           (status s = LOST \<and> (\<forall>t \<in> set (turrets s). \<not> active t))"
  shows "(status (impact r s) = PLAYING \<and> (\<exists>t \<in> set (turrets (impact r s)). active t)) \<or>
         (status (impact r s) = LOST \<and> (\<forall>t \<in> set (turrets (impact r s)). \<not> active t))"
proof (cases "list_all (\<lambda>t. \<not> active t) (deactivateFirst (atTarget r) (turrets s))")
  case True
  then show ?thesis by (simp add: list_all_iff)
next
  case False
  then have ex: "\<exists>t \<in> set (deactivateFirst (atTarget r) (turrets s)). active t"
    by (simp add: list_all_iff)
  have "\<not> (\<forall>t \<in> set (turrets s). \<not> active t)"
    using faded_all_inactive [OF faded_deactivateFirst [of "turrets s" "atTarget r"]] ex
    by blast
  with assms have "status s = PLAYING" by blast
  with False ex show ?thesis by simp
qed

lemma fold_impact_status_inv:
  "(status s = PLAYING \<and> (\<exists>t \<in> set (turrets s). active t)) \<or>
   (status s = LOST \<and> (\<forall>t \<in> set (turrets s). \<not> active t)) \<Longrightarrow>
   (status (fold impact rs s) = PLAYING \<and> (\<exists>t \<in> set (turrets (fold impact rs s)). active t)) \<or>
   (status (fold impact rs s) = LOST \<and> (\<forall>t \<in> set (turrets (fold impact rs s)). \<not> active t))"
proof (induction rs arbitrary: s)
  case Nil
  then show ?case by simp
next
  case (Cons a rs)
  from Cons.IH [OF impact_status_inv [OF Cons.prems, of a]] show ?case by simp
qed

lemma beforeCollisions_status:
  assumes "status s = PLAYING" and "\<exists>t \<in> set (turrets s). active t"
  shows "status (beforeCollisions time d s) =
           (if \<forall>t \<in> set (turrets (beforeCollisions time d s)). \<not> active t then LOST else PLAYING)"
proof -
  let ?s1 = "spawnPhase time d s"
  have "(status ?s1 = PLAYING \<and> (\<exists>t \<in> set (turrets ?s1). active t)) \<or>
        (status ?s1 = LOST \<and> (\<forall>t \<in> set (turrets ?s1). \<not> active t))"
    using assms by simp
  from fold_impact_status_inv [OF this,
      of "filter (\<lambda>r. 1 \<le> progress r) (map moveRocket (rockets ?s1))"]
  show ?thesis
    by (auto simp: beforeCollisions_def updateRockets_cities_turrets)
qed

lemma levelUp_all_inactive:
  "(\<forall>t \<in> set (turrets (levelUp sc lvl s)). \<not> active t) \<longleftrightarrow>
   (\<forall>t \<in> set (turrets s). \<not> active t)"
proof (cases "sc > lvl * 200 \<and> lvl < 5")
  case True
  have f: "active (if active t then t\<lparr>ammo := maxAmmo t\<rparr> else t) = active t" for t :: Turret
    by (cases "active t") simp_all
  from True have "turrets (levelUp sc lvl s) =
      map (\<lambda>t. if active t then t\<lparr>ammo := maxAmmo t\<rparr> else t) (turrets s)"
    by (simp add: levelUp_def)
  then show ?thesis by (simp only: set_map ball_simps f)
next
  case False
  then have "levelUp sc lvl s = s" unfolding levelUp_def by (rule if_not_P)
  then show ?thesis by simp
qed

lemma update_all_inactive:
  "status s = PLAYING \<Longrightarrow>
   (\<forall>t \<in> set (turrets (update time d s)). \<not> active t) \<longleftrightarrow>
   (\<forall>t \<in> set (turrets (beforeCollisions time d s)). \<not> active t)"
  by (simp add: update_PLAYING levelUp_all_inactive beforeCollisions_def)

lemma update_status:
  "status s = PLAYING \<Longrightarrow>
   status (update time d s) =
     (if 1000 \<le> score (update time d s) \<and> score s < score (update time d s)
      then WON else status (beforeCollisions time d s))"
  using updateExplosions_status [of "beforeCollisions time d s"]
  by (simp add: update_PLAYING beforeCollisions_def)

lemma tick_status:
  assumes p: "status s = PLAYING" and sc: "score s < 1000"
    and t: "\<exists>t \<in> set (turrets s). active t"
  shows "status (update time d s) =
       (if 1000 \<le> score (update time d s) then WON
        else if \<forall>t \<in> set (turrets (update time d s)). \<not> active t then LOST
        else PLAYING)"
  using update_status [OF p, of time d] sc beforeCollisions_status [OF p t, of time d]
    update_all_inactive [OF p, of time d]
  by (auto split: if_splits)

lemma handleCanvasClick_status_score [simp]:
  "status (handleCanvasClick px py newId s) = status s"
  "score (handleCanvasClick px py newId s) = score s"
  by (simp_all add: handleCanvasClick_def fireInterceptor_def Let_def split: option.splits)

lemma handleCanvasClick_keeps_active:
  assumes "\<exists>t \<in> set (turrets s). active t"
  shows "\<exists>t \<in> set (turrets (handleCanvasClick px py newId s)). active t"
proof -
  from assms obtain n where n: "n < length (turrets s)" "active (turrets s ! n)"
    by (auto simp: in_set_conv_nth)
  from handleCanvasClick_turrets [of px py newId s] show ?thesis
  proof (elim disjE exE conjE)
    assume "turrets (handleCanvasClick px py newId s) = turrets s"
    with assms show ?thesis by (simp only:)
  next
    fix k
    assume k: "k < length (turrets s)"
      and upd: "turrets (handleCanvasClick px py newId s) =
          (turrets s)[k := (turrets s ! k)\<lparr>ammo := ammo (turrets s ! k) - 1\<rparr>]"
    let ?ts' = "(turrets s)[k := (turrets s ! k)\<lparr>ammo := ammo (turrets s ! k) - 1\<rparr>]"
    have len: "n < length ?ts'" using n(1) by simp
    have "active (?ts' ! n)"
    proof (cases "n = k")
      case True
      with n show ?thesis by simp
    next
      case False
      with n show ?thesis by simp
    qed
    with len have "\<exists>m < length ?ts'. active (?ts' ! m)" by (intro exI [of _ n] conjI)
    then have "\<exists>t \<in> set ?ts'. active t" using nth_mem by (elim exE conjE) (rule bexI)
    then show ?thesis by (simp only: upd)
  qed
qed

lemma reachable_playing:
  "reachable s \<Longrightarrow> status s = PLAYING \<Longrightarrow>
   score s < 1000 \<and> (\<exists>t \<in> set (turrets s). active t)"
proof (induction rule: reachable.induct)
  case reachable_init
  then show ?case by (simp add: initialState_def)
next
  case (reachable_reset s)
  show ?case by (simp add: resetGame_def INITIAL_TURRETS_def)
next
  case (reachable_click s px py newId)
  from reachable_click.prems have p: "status s = PLAYING" by simp
  from reachable_click.IH [OF p] handleCanvasClick_keeps_active [of s px py newId]
  show ?case by simp
next
  case (reachable_tick s d time)
  show ?case
  proof (cases "status s = PLAYING")
    case True
    from reachable_tick.IH [OF True] have sc: "score s < 1000"
      and t: "\<exists>t \<in> set (turrets s). active t" by blast+
    from tick_status [OF True sc t, of time d] reachable_tick.prems
    show ?thesis by (auto split: if_splits)
  next
    case False
    with reachable_tick.prems show ?thesis by (simp add: update_not_PLAYING)
  qed
qed

text \<open>
  Claim C1 says that in a tick the status becomes \<open>LOST\<close> exactly when the set of
  active turrets becomes empty, and that \<open>LOST\<close> and \<open>WON\<close> exclude each other in a
  tick. In \<open>exampleLastStand\<close> one rocket reaches the last active turret and another is
  caught by an explosion that takes the score from 980 to 1000: the rocket pass sets
  \<open>LOST\<close>, the explosion pass, which runs later in the same tick, sets \<open>WON\<close>, and
  the tick ends with every turret inactive and the status \<open>WON\<close>.
\<close>

theorem lost_and_won_in_one_tick:
  "status exampleLastStand = PLAYING \<and> score exampleLastStand = 980 \<and>
   map active (turrets exampleLastStand) = [False, False, True] \<and>
   map active (turrets (update 5100 exampleDraws exampleLastStand)) = [False, False, False] \<and>
   status (beforeCollisions 5100 exampleDraws exampleLastStand) = LOST \<and>
   score (update 5100 exampleDraws exampleLastStand) = 1000 \<and>
   status (update 5100 exampleDraws exampleLastStand) = WON \<and>
   status (update 5100 exampleDraws exampleLastStand) \<noteq> LOST"
  by (simp add: exampleLastStand_def exampleDraws_def beforeCollisions_def tick_defs)

text \<open>
  Claim C1, as the code has it. In every reachable state whose status is \<open>PLAYING\<close> the
  score is below 1000 and some turret is active. Take a tick executed in such a state.
  The rocket pass comes first and leaves the status \<open>LOST\<close> if every turret is inactive
  after it, \<open>PLAYING\<close> otherwise. The explosion pass comes second and sets \<open>WON\<close> if the
  score reaches 1000. Nothing guards the second assignment, so after the tick the status
  is \<open>WON\<close> iff the score is at least 1000; otherwise it is \<open>LOST\<close> iff no turret is
  active, and \<open>PLAYING\<close> if one is.
\<close>

theorem status_after_tick:
  "(reachable s \<and> status s = PLAYING \<longrightarrow>
      score s < 1000 \<and> (\<exists>t \<in> set (turrets s). active t)) \<and>
   (status s = PLAYING \<and> score s < 1000 \<and> (\<exists>t \<in> set (turrets s). active t) \<longrightarrow>
      status (beforeCollisions time d s) =
        (if \<forall>t \<in> set (turrets (beforeCollisions time d s)). \<not> active t then LOST else PLAYING) \<and>
      status (update time d s) =
        (if 1000 \<le> score (update time d s) then WON
         else if \<forall>t \<in> set (turrets (update time d s)). \<not> active t then LOST
         else PLAYING))"
proof (intro conjI impI)
  assume "reachable s \<and> status s = PLAYING"
  then have r: "reachable s" and p: "status s = PLAYING" by blast+
  from reachable_playing [OF r p]
  show "score s < 1000" and "\<exists>t \<in> set (turrets s). active t" by blast+
next
  assume "status s = PLAYING \<and> score s < 1000 \<and> (\<exists>t \<in> set (turrets s). active t)"
  then have p: "status s = PLAYING" and sc: "score s < 1000"
    and t: "\<exists>t \<in> set (turrets s). active t" by blast+
  show "status (beforeCollisions time d s) =
        (if \<forall>t \<in> set (turrets (beforeCollisions time d s)). \<not> active t then LOST else PLAYING)"
    by (rule beforeCollisions_status [OF p t])
  show "status (update time d s) =
        (if 1000 \<le> score (update time d s) then WON
         else if \<forall>t \<in> set (turrets (update time d s)). \<not> active t then LOST
         else PLAYING)"
    by (rule tick_status [OF p sc t])
qed

theorem status_after_tick_witness:
  "status exampleFall = PLAYING \<and> score exampleFall = 340 \<and>
   map active (turrets exampleFall) = [False, False, True] \<and>
   map active (turrets (update 5100 exampleDraws exampleFall)) = [False, False, False] \<and>
   score (update 5100 exampleDraws exampleFall) = 360 \<and>
   status (update 5100 exampleDraws exampleFall) = LOST"
  using status_after_tick [where s = exampleFall and time = 5100 and d = exampleDraws]
  by (simp add: exampleFall_def exampleDraws_def beforeCollisions_def
      tick_defs)

end
